theory Spec2Isabelle
  imports Main "HOL-Library.Sublist" "HOL-Library.Multiset"
begin

section \<open>JavaScript strings and the built-ins the handler calls\<close>

text \<open>
  Object keys, column headers and cell values are JavaScript strings. They are modelled as
  \<^typ>\<open>string\<close>, read as the UTF-8 bytes of the text: the characters the code looks at
  (\<open>/\<close>, \<open>+\<close>, \<open>%\<close>, space, the hexadecimal digits, the ASCII letters) are single bytes
  that never occur inside a multi-byte sequence.

  A thrown value is an \<open>Error\<close> instance with its message, or some other value; for the
  latter the model keeps the two renderings the handler takes of it (inside a template
  literal after \<open>serializeError\<close>, and by \<open>JSON.stringify\<close>).
\<close>

datatype exn = Error string | NonError string string

text \<open>\<open>s.split(sep)\<close> for a one-character separator: never empty, \<open>"".split("/") = [""]\<close>.\<close>

fun split_str :: "char \<Rightarrow> string \<Rightarrow> string list" where
  "split_str sep [] = [[]]"
| "split_str sep (c # cs) =
     (if c = sep then [] # split_str sep cs
      else (case split_str sep cs of
              [] \<Rightarrow> [[c]]
            | p # ps \<Rightarrow> (c # p) # ps))"

definition endsWith :: "string \<Rightarrow> string \<Rightarrow> bool" where
  "endsWith s x = suffix x s"

text \<open>\<open>s.replace(/\+/g, " ")\<close>\<close>

definition replacePlus :: "string \<Rightarrow> string" where
  "replacePlus s = map (\<lambda>c. if c = CHR ''+'' then CHR '' '' else c) s"

text \<open>
  \<open>s.toLowerCase()\<close>, on the ASCII letters: \<open>A\<close> to \<open>Z\<close> are lowered. A
  character is a byte here, and a cased letter outside ASCII, which the source lowers too,
  is left as it is. The header properties below are about spaces, slashes and underscores,
  which no lowering makes or removes.
\<close>

definition lowerChar :: "char \<Rightarrow> char" where
  "lowerChar c =
     (let n = (of_char c :: nat) in
      if 65 \<le> n \<and> n \<le> 90 then char_of (n + 32) else c)"

definition toLowerCase :: "string \<Rightarrow> string" where
  "toLowerCase s = map lowerChar s"

text \<open>
  \<open>s.replace(/[...]+/g, "_")\<close> for a character class: the scan goes left to right, a
  match starts at the first character of the class, is greedy, and the scan goes on behind it.
\<close>

function replaceRuns :: "(char \<Rightarrow> bool) \<Rightarrow> string \<Rightarrow> string" where
  "replaceRuns cls [] = []"
| "replaceRuns cls (c # cs) =
     (if cls c then CHR ''_'' # replaceRuns cls (dropWhile cls cs)
      else c # replaceRuns cls cs)"
  by pat_completeness auto
termination
  by (relation "measure (\<lambda>(cls, s). length s)")
     (auto simp: less_Suc_eq_le length_dropWhile_le)

subsection \<open>\<open>decodeURIComponent\<close>\<close>

text \<open>
  The \<open>Decode\<close> operation of ECMAScript with an empty set of preserved escapes. A \<open>%\<close>
  must be followed by two hexadecimal digits. An octet below 128 is the character itself;
  an octet with \<open>n\<close> leading one bits (\<open>2 \<le> n \<le> 4\<close>) starts a sequence of \<open>n\<close> escaped
  octets that must be the UTF-8 encoding of a code point. Everything else raises
  \<open>URIError\<close>. \<open>decode need octets s\<close> reads \<open>s\<close> with \<open>need\<close> escaped octets of a
  sequence still to come and \<open>octets\<close> read so far.
\<close>

definition URIError :: exn where
  "URIError = Error ''URI malformed''"

definition hexValue :: "char \<Rightarrow> nat option" where
  "hexValue c =
     (let n = (of_char c :: nat) in
      if 48 \<le> n \<and> n \<le> 57 then Some (n - 48)
      else if 65 \<le> n \<and> n \<le> 70 then Some (n - 55)
      else if 97 \<le> n \<and> n \<le> 102 then Some (n - 87)
      else None)"

definition parseHexOctet :: "char \<Rightarrow> char \<Rightarrow> nat option" where
  "parseHexOctet h1 h2 =
     (case (hexValue h1, hexValue h2) of
        (Some a, Some b) \<Rightarrow> Some (16 * a + b)
      | _ \<Rightarrow> None)"

definition leadingOnes :: "nat \<Rightarrow> nat" where
  "leadingOnes b =
     (if b < 128 then 0 else if b < 192 then 1 else if b < 224 then 2
      else if b < 240 then 3 else if b < 248 then 4 else 5)"

definition continuation :: "nat \<Rightarrow> bool" where
  "continuation b = (128 \<le> b \<and> b < 192)"

fun validUtf8 :: "nat list \<Rightarrow> bool" where
  "validUtf8 [b0, b1] = (194 \<le> b0 \<and> b0 < 224 \<and> continuation b1)"
| "validUtf8 [b0, b1, b2] =
     (224 \<le> b0 \<and> b0 < 240 \<and> continuation b1 \<and> continuation b2
      \<and> (b0 = 224 \<and> 160 \<le> b1 \<or> b0 = 237 \<and> b1 < 160 \<or> b0 \<noteq> 224 \<and> b0 \<noteq> 237))"
| "validUtf8 [b0, b1, b2, b3] =
     (240 \<le> b0 \<and> b0 < 245 \<and> continuation b1 \<and> continuation b2 \<and> continuation b3
      \<and> (b0 = 240 \<and> 144 \<le> b1 \<or> b0 = 244 \<and> b1 < 144 \<or> b0 \<noteq> 240 \<and> b0 \<noteq> 244))"
| "validUtf8 _ = False"

fun prepend :: "string \<Rightarrow> exn + string \<Rightarrow> exn + string" where
  "prepend s (Inl e) = Inl e"
| "prepend s (Inr r) = Inr (s @ r)"

fun decode :: "nat \<Rightarrow> nat list \<Rightarrow> string \<Rightarrow> exn + string" where
  "decode need octets [] = (if need = 0 then Inr [] else Inl URIError)"
| "decode need octets (c # cs) =
     (if c = CHR ''%'' then
        (case cs of
           h1 # h2 # rest \<Rightarrow>
             (case parseHexOctet h1 h2 of
                None \<Rightarrow> Inl URIError
              | Some b \<Rightarrow>
                  if need = 0 then
                    (let n = leadingOnes b in
                     if n = 0 then prepend [char_of b] (decode 0 [] rest)
                     else if n = 1 \<or> 4 < n then Inl URIError
                     else decode (n - 1) [b] rest)
                  else if need = 1 then
                    (if validUtf8 (octets @ [b])
                     then prepend (map char_of (octets @ [b])) (decode 0 [] rest)
                     else Inl URIError)
                  else decode (need - 1) (octets @ [b]) rest)
         | _ \<Rightarrow> Inl URIError)
      else if need = 0 then prepend [c] (decode 0 [] cs)
      else Inl URIError)"

definition decodeURIComponent :: "string \<Rightarrow> exn + string" where
  "decodeURIComponent s = decode 0 [] s"

section \<open>The event key classifier\<close>

record BucketNotificationRecord =
  s3_bucket_name :: string
  s3_object_key :: string

record FilteredKey =
  filteredKey :: string
  reason :: string

record KeyToProcess =
  bucketName :: string
  key :: string

record GroupedEventKeys =
  groupFilteredKeys :: "FilteredKey list"
  keysToProcess :: "KeyToProcess list"

text \<open>Object key components are URI-encoded, with \<open>+\<close> used for encoding spaces.\<close>

definition decodeObjectKey :: "string \<Rightarrow> exn + string" where
  "decodeObjectKey objectKey = decodeURIComponent (replacePlus objectKey)"

text \<open>
  The callback of \<open>records.reduce\<close> in \<open>groupEventKeys\<close>. It pushes on the local array
  \<open>filteredKeys\<close> and returns the collected keys; both are threaded here. An exception of
  \<open>decodeObjectKey\<close> leaves the callback and the reduction.
\<close>

definition groupEventKey ::
  "FilteredKey list \<times> KeyToProcess list \<Rightarrow> BucketNotificationRecord
     \<Rightarrow> exn + (FilteredKey list \<times> KeyToProcess list)" where
  "groupEventKey acc record =
     (let (filteredKeys, collectedKeys) = acc;
          eventKey = s3_object_key record in
      if endsWith eventKey ''/'' then
        Inr (filteredKeys @ [\<lparr>filteredKey = eventKey, reason = ''key represents a folder''\<rparr>],
             collectedKeys)
      else
        (let splitKey = split_str CHR ''/'' eventKey in
         if length splitKey < 2 \<or> splitKey ! (length splitKey - 2) \<noteq> ''inventory'' then
           Inr (filteredKeys @
                  [\<lparr>filteredKey = eventKey,
                    reason = ''key does not match an item in an `inventory` directory''\<rparr>],
                collectedKeys)
         else
           (case decodeObjectKey eventKey of
              Inl e \<Rightarrow> Inl e
            | Inr decoded \<Rightarrow>
                Inr (filteredKeys,
                     collectedKeys @ [\<lparr>bucketName = s3_bucket_name record, key = decoded\<rparr>]))))"

fun reduceEventKeys ::
  "BucketNotificationRecord list \<Rightarrow> FilteredKey list \<times> KeyToProcess list
     \<Rightarrow> exn + (FilteredKey list \<times> KeyToProcess list)" where
  "reduceEventKeys [] acc = Inr acc"
| "reduceEventKeys (record # records) acc =
     (case groupEventKey acc record of
        Inl e \<Rightarrow> Inl e
      | Inr acc' \<Rightarrow> reduceEventKeys records acc')"

definition groupEventKeys :: "BucketNotificationRecord list \<Rightarrow> exn + GroupedEventKeys" where
  "groupEventKeys records =
     (case reduceEventKeys records ([], []) of
        Inl e \<Rightarrow> Inl e
      | Inr (filteredKeys, collected) \<Rightarrow>
          Inr \<lparr>groupFilteredKeys = filteredKeys, keysToProcess = collected\<rparr>)"

text \<open>
  Inbound keys are expected in the format
  \<open>trading_partners/${senderId}/inventory/${filename}.csv\<close>.
\<close>

definition extractShopIdFromKey :: "string \<Rightarrow> exn + string" where
  "extractShopIdFromKey objectKey =
     (let keyParts = split_str CHR ''/'' objectKey in
      if length keyParts \<noteq> 4
      then Inl (Error ''unable to extract sender ID from object key'')
      else Inr (keyParts ! 1))"

section \<open>Header normalisation\<close>

text \<open>
  The \<open>transformHeader\<close> option given to the converter. The handler that also writes
  to the keyed store replaces runs of spaces (\<open>/ +/g\<close>); the handler that only posts to the
  webhook replaces runs of spaces and slashes (\<open>/[ \/]+/g\<close>).
\<close>

definition transformHeader :: "string \<Rightarrow> string" where
  "transformHeader header = replaceRuns (\<lambda>c. c = CHR '' '') (toLowerCase header)"

definition transformHeader_webhookOnly :: "string \<Rightarrow> string" where
  "transformHeader_webhookOnly header =
     replaceRuns (\<lambda>c. c = CHR '' '' \<or> c = CHR ''/'') (toLowerCase header)"

section \<open>The outside world\<close>

text \<open>
  A parsed row is an object from column name to cell text, in column order. A value stored
  under a sku in the keyed store is an object from sender identifier to the sender's price
  and quantity. A property that is read from an object that lacks it is \<open>undefined\<close>:
  \<^const>\<open>None\<close>.
\<close>

type_synonym item = "(string \<times> string) list"

record PriceQuantity =
  price :: "string option"
  quantity :: "string option"

type_synonym stashValue = "(string \<times> PriceQuantity) list"

definition hasOwnProperty :: "item \<Rightarrow> string \<Rightarrow> bool" where
  "hasOwnProperty obj attribute = (map_of obj attribute \<noteq> None)"

definition getProp :: "item \<Rightarrow> string \<Rightarrow> string option" where
  "getProp obj attribute = map_of obj attribute"

text \<open>\<open>{ ...obj, [k]: v }\<close>: an existing property keeps its place and takes the new value.\<close>

fun spreadWith :: "('k \<times> 'v) list \<Rightarrow> 'k \<Rightarrow> 'v \<Rightarrow> ('k \<times> 'v) list" where
  "spreadWith [] k v = [(k, v)]"
| "spreadWith ((k', v') # obj) k v =
     (if k' = k then (k, v) # obj else (k', v') # spreadWith obj k v)"

text \<open>
  Every call the handler makes on a collaborator is a command, appended to the trace of
  the invocation when it is issued. The progress events keep their message. The payload of a
  webhook post is \<open>{ [senderId]: inventoryJson }\<close>.
\<close>

datatype command =
    TrackProgress string
  | RecordNewExecution string string
  | GetObject KeyToProcess
  | Fetch string string "item list"
  | GetValue "string option" string
  | SetValue "string option" stashValue string
  | DeleteObject KeyToProcess
  | MarkExecutionAsSuccessful string
  | FailedExecution string exn

type_synonym trace = "command list"

text \<open>
  The collaborators are parameters of the handler. What a collaborator answers may depend
  on every command issued before (the trace), which covers a store, a bucket whose objects
  come and go, and a service that fails now and then. A call that returns nothing answers
  \<^const>\<open>None\<close>, or \<open>Some e\<close> when it raises \<open>e\<close>. The event is the JSON text
  of the notification payload.
\<close>

record env =
  functionName :: string
  generateExecutionId :: "string \<Rightarrow> string"
  recordNewExecution_reply :: "trace \<Rightarrow> string \<Rightarrow> string \<Rightarrow> exn option"
  toBucketNotificationEvent :: "string \<Rightarrow> exn + BucketNotificationRecord list"
  requiredEnvVar :: "string \<Rightarrow> exn + string"
  getObject_reply :: "trace \<Rightarrow> KeyToProcess \<Rightarrow> exn + string"
  papaparse_header :: "string \<Rightarrow> string list"
  papaparse_rows :: "string \<Rightarrow> string list list"
  papaparse_errors :: "string \<Rightarrow> string list"
  fetch_reply :: "trace \<Rightarrow> string \<Rightarrow> string \<Rightarrow> item list \<Rightarrow> exn option"
  getValue_reply :: "trace \<Rightarrow> string option \<Rightarrow> exn + stashValue option"
  setValue_reply :: "trace \<Rightarrow> string option \<Rightarrow> stashValue \<Rightarrow> exn option"
  deleteObject_reply :: "trace \<Rightarrow> KeyToProcess \<Rightarrow> exn option"

subsection \<open>Computations that issue commands and may raise\<close>

type_synonym 'a io = "trace \<Rightarrow> (exn + 'a) \<times> trace"

definition result :: "'a \<Rightarrow> 'a io" where
  "result a t = (Inr a, t)"

definition lift :: "exn + 'a \<Rightarrow> 'a io" where
  "lift r t = (r, t)"

definition andThen :: "'a io \<Rightarrow> ('a \<Rightarrow> 'b io) \<Rightarrow> 'b io" where
  "andThen m f t =
     (case m t of
        (Inl e, t') \<Rightarrow> (Inl e, t')
      | (Inr a, t') \<Rightarrow> f a t')"

definition tryCatch :: "'a io \<Rightarrow> (exn \<Rightarrow> 'a io) \<Rightarrow> 'a io" where
  "tryCatch m h t =
     (case m t of
        (Inl e, t') \<Rightarrow> h e t'
      | (Inr a, t') \<Rightarrow> (Inr a, t'))"

definition replied :: "exn option \<Rightarrow> exn + unit" where
  "replied r = (case r of None \<Rightarrow> Inr () | Some e \<Rightarrow> Inl e)"

subsection \<open>The calls\<close>

definition recordNewExecution :: "env \<Rightarrow> string \<Rightarrow> string \<Rightarrow> unit io" where
  "recordNewExecution env executionId event t =
     (replied (recordNewExecution_reply env t executionId event),
      t @ [RecordNewExecution executionId event])"

text \<open>
  \<open>bucketsClient.send(new GetObjectCommand(keyToProcess))\<close> and the reading of the
  response body as text.
\<close>

definition getObject :: "env \<Rightarrow> KeyToProcess \<Rightarrow> string io" where
  "getObject env keyToProcess t =
     (getObject_reply env t keyToProcess, t @ [GetObject keyToProcess])"

definition deleteObject :: "env \<Rightarrow> KeyToProcess \<Rightarrow> unit io" where
  "deleteObject env keyToProcess t =
     (replied (deleteObject_reply env t keyToProcess), t @ [DeleteObject keyToProcess])"

definition fetch :: "env \<Rightarrow> string \<Rightarrow> string \<Rightarrow> item list \<Rightarrow> unit io" where
  "fetch env url senderId inventoryJson t =
     (replied (fetch_reply env t url senderId inventoryJson),
      t @ [Fetch url senderId inventoryJson])"

definition INVENTORY_DATA_STASH_KEYSPACE_NAME :: string where
  "INVENTORY_DATA_STASH_KEYSPACE_NAME = ''inventory-data''"

definition getValue :: "env \<Rightarrow> string option \<Rightarrow> stashValue option io" where
  "getValue env k t =
     (getValue_reply env t k, t @ [GetValue k INVENTORY_DATA_STASH_KEYSPACE_NAME])"

definition setValue :: "env \<Rightarrow> string option \<Rightarrow> stashValue \<Rightarrow> unit io" where
  "setValue env k v t =
     (replied (setValue_reply env t k v),
      t @ [SetValue k v INVENTORY_DATA_STASH_KEYSPACE_NAME])"

text \<open>
  Modelled from the spec: \<open>lib/progressTracking.js\<close> is not among the sources. The spec
  has \<open>trackProgress\<close> as the observer hook that emits a progress event at every step;
  it emits the event and returns.
\<close>

definition trackProgress :: "string \<Rightarrow> unit io" where
  "trackProgress message t = (Inr (), t @ [TrackProgress message])"

text \<open>
  Modelled from the spec: \<open>lib/execution.js\<close> is not among the sources. The spec has
  \<open>finalizeSuccess(executionId)\<close> delete the records of the execution, and
  \<open>finalizeFailure(executionId, error)\<close> return a structured failure result instead of
  throwing. The failure object is kept as the execution identifier and the error it was
  produced from.
\<close>

record ProcessingError =
  errorKey :: string
  error :: exn

record ProcessingResults =
  filteredKeys :: "FilteredKey list"
  processingErrors :: "ProcessingError list"
  processedKeys :: "string list"

datatype handlerResult = Results ProcessingResults | Failed string exn

definition markExecutionAsSuccessful :: "string \<Rightarrow> unit io" where
  "markExecutionAsSuccessful executionId t =
     (Inr (), t @ [MarkExecutionAsSuccessful executionId])"

definition failedExecution :: "string \<Rightarrow> exn \<Rightarrow> handlerResult io" where
  "failedExecution executionId err t =
     (Inr (Failed executionId err), t @ [FailedExecution executionId err])"

subsection \<open>The converter\<close>

text \<open>
  \<open>papaparse.parse\<close> with \<open>header: true\<close>. How the library cuts a text into lines and
  cells is a parameter: the cells of the header line, the cells of every other line (empty
  lines skipped), and the errors it finds in the text itself (quotes, delimiter). The rest
  is the library's header mode: the column names are the header cells, each through
  \<open>transformHeader\<close>; a row becomes an object by \<open>row[field] = value\<close>, cell by cell;
  and a row with more or fewer cells than there are columns adds an error
  (\<open>TooManyFields\<close>, \<open>TooFewFields\<close>). The cells beyond the columns, which the library
  collects under \<open>__parsed_extra\<close>, are left out: such a result has an error, and the
  converter returns none of its data.
\<close>

record ParseResult =
  data :: "item list"
  errors :: "string list"

definition fieldMismatch :: "string list \<Rightarrow> string list \<Rightarrow> string list" where
  "fieldMismatch columns row =
     (if length row > length columns then [''TooManyFields'']
      else if length row < length columns then [''TooFewFields'']
      else [])"

definition processRow :: "string list \<Rightarrow> string list \<Rightarrow> item" where
  "processRow columns row =
     foldl (\<lambda>obj (field, cell). spreadWith obj field cell) [] (zip columns row)"

definition papaparse_parse :: "env \<Rightarrow> string \<Rightarrow> (string \<Rightarrow> string) \<Rightarrow> ParseResult" where
  "papaparse_parse env inputCsv transform =
     (let columns = map transform (papaparse_header env inputCsv);
          rows = papaparse_rows env inputCsv
      in \<lparr>data = map (processRow columns) rows,
          errors = papaparse_errors env inputCsv @ concat (map (fieldMismatch columns) rows)\<rparr>)"

text \<open>
  \<open>`${xs}`\<close> for an array: its elements joined by commas. An error of the library is a
  plain object, which prints as \<open>[object Object]\<close>.
\<close>

fun joinComma :: "string list \<Rightarrow> string" where
  "joinComma [] = []"
| "joinComma [x] = x"
| "joinComma (x # y # ys) = x @ '','' @ joinComma (y # ys)"

definition convertCsvToJson :: "env \<Rightarrow> string \<Rightarrow> (string \<Rightarrow> string) \<Rightarrow> exn + item list" where
  "convertCsvToJson env inputCsv transform =
     (let res = papaparse_parse env inputCsv transform in
      if length (errors res) > 0
      then Inl (Error (''error'' @ (if length (errors res) > 1 then ''s'' else [])
                        @ '' encountered converting CSV to JSON: ''
                        @ joinComma (map (\<lambda>e. ''[object Object]'') (errors res))))
      else Inr (data res))"

section \<open>The handler\<close>

definition requiredInventoryItemAttributes :: "string list" where
  "requiredInventoryItemAttributes = [''sku'', ''quantity'', ''price'']"

definition missingRequiredAttribute :: "item \<Rightarrow> bool" where
  "missingRequiredAttribute item =
     list_ex (\<lambda>attribute. \<not> hasOwnProperty item attribute) requiredInventoryItemAttributes"

text \<open>
  The value written for an item: the value read, or an empty object when there is none,
  with the sender's entry set.
\<close>

definition mergedValue :: "stashValue option \<Rightarrow> string \<Rightarrow> item \<Rightarrow> stashValue" where
  "mergedValue existing senderId item =
     spreadWith (case existing of None \<Rightarrow> [] | Some v \<Rightarrow> v) senderId
       \<lparr>price = getProp item ''price'', quantity = getProp item ''quantity''\<rparr>"

text \<open>
  The callback mapped over \<open>inventoryJson\<close>. It pushes a skipped item on
  \<open>skippedInventoryItems\<close>, threaded here with the trace.
\<close>

definition stashItem :: "env \<Rightarrow> string \<Rightarrow> item list \<Rightarrow> item \<Rightarrow> (item list) io" where
  "stashItem env senderId skippedInventoryItems item =
     (if missingRequiredAttribute item
      then result (skippedInventoryItems @ [item])
      else
        andThen (getValue env (getProp item ''sku'')) (\<lambda>existingInventoryForSku.
        andThen (setValue env (getProp item ''sku'')
                   (mergedValue existingInventoryForSku senderId item)) (\<lambda>_.
        result skippedInventoryItems)))"

text \<open>
  \<open>await Promise.all(inventoryJson.map(async (item) => ...))\<close>. Every callback is
  started, a callback that raises stops none of the others, and the first that raises
  rejects the whole. The callbacks are taken one after the other in the order of the rows.
  In the code the calls of different rows may reach the store interleaved, in an order the
  code does not fix; what is proved below about the store is proved of a single callback,
  or of every command whatever its place.
\<close>

fun stashItems :: "env \<Rightarrow> string \<Rightarrow> item list \<Rightarrow> item list \<Rightarrow> (item list) io" where
  "stashItems env senderId [] skippedInventoryItems t = result skippedInventoryItems t"
| "stashItems env senderId (item # items) skippedInventoryItems t =
     (case stashItem env senderId skippedInventoryItems item t of
        (Inl e, t1) \<Rightarrow> (Inl e, snd (stashItems env senderId items skippedInventoryItems t1))
      | (Inr skipped, t1) \<Rightarrow> stashItems env senderId items skipped t1)"

definition skipMessage :: string where
  "skipMessage = ''inventory item(s) skipped due to missing required attributes''"

text \<open>The body of the \<open>try\<close> inside the loop over the keys.\<close>

definition processContents ::
  "env \<Rightarrow> string \<Rightarrow> KeyToProcess \<Rightarrow> string \<Rightarrow> string \<Rightarrow> ProcessingResults
     \<Rightarrow> ProcessingResults io" where
  "processContents env destinationWebhookUrl keyToProcess senderId fileContents results =
     andThen (lift (convertCsvToJson env fileContents transformHeader)) (\<lambda>inventoryJson.
     andThen (trackProgress ''converted inventory JSON'') (\<lambda>_.
     andThen (fetch env destinationWebhookUrl senderId inventoryJson) (\<lambda>_.
     andThen (stashItems env senderId inventoryJson []) (\<lambda>skippedInventoryItems.
       if length skippedInventoryItems > 0 then
         andThen (trackProgress skipMessage) (\<lambda>_.
         result (results\<lparr>processingErrors := processingErrors results @
                   [\<lparr>errorKey = key keyToProcess, error = Error skipMessage\<rparr>]\<rparr>))
       else
         andThen (deleteObject env keyToProcess) (\<lambda>_.
         result (results\<lparr>processedKeys := processedKeys results @ [key keyToProcess]\<rparr>))))))"

text \<open>\<open>e instanceof Error ? e : new Error(`unknown error: ${serializeError(e)}`)\<close>\<close>

definition asError :: "exn \<Rightarrow> exn" where
  "asError e =
     (case e of
        Error m \<Rightarrow> Error m
      | NonError serialized json \<Rightarrow> Error (''unknown error: '' @ serialized))"

definition recordProcessingError ::
  "KeyToProcess \<Rightarrow> ProcessingResults \<Rightarrow> exn \<Rightarrow> ProcessingResults io" where
  "recordProcessingError keyToProcess results e =
     andThen (trackProgress ''error processing document'') (\<lambda>_.
     result (results\<lparr>processingErrors := processingErrors results @
               [\<lparr>errorKey = key keyToProcess, error = asError e\<rparr>]\<rparr>))"

text \<open>One round of the loop over \<open>groupedEventKeys.keysToProcess\<close>.\<close>

definition processKey ::
  "env \<Rightarrow> string \<Rightarrow> KeyToProcess \<Rightarrow> ProcessingResults \<Rightarrow> ProcessingResults io" where
  "processKey env destinationWebhookUrl keyToProcess results =
     andThen (lift (extractShopIdFromKey (key keyToProcess))) (\<lambda>senderId.
     andThen (getObject env keyToProcess) (\<lambda>fileContents.
     tryCatch
       (processContents env destinationWebhookUrl keyToProcess senderId fileContents results)
       (recordProcessingError keyToProcess results)))"

fun processKeys ::
  "env \<Rightarrow> string \<Rightarrow> KeyToProcess list \<Rightarrow> ProcessingResults \<Rightarrow> ProcessingResults io" where
  "processKeys env destinationWebhookUrl [] results = result results"
| "processKeys env destinationWebhookUrl (keyToProcess # keys) results =
     andThen (processKey env destinationWebhookUrl keyToProcess results)
             (processKeys env destinationWebhookUrl keys)"

text \<open>The handler that only posts to the webhook has no keyed store and checks no row.\<close>

definition processContents_webhookOnly ::
  "env \<Rightarrow> string \<Rightarrow> KeyToProcess \<Rightarrow> string \<Rightarrow> string \<Rightarrow> ProcessingResults
     \<Rightarrow> ProcessingResults io" where
  "processContents_webhookOnly env destinationWebhookUrl keyToProcess senderId fileContents
       results =
     andThen (lift (convertCsvToJson env fileContents transformHeader_webhookOnly))
       (\<lambda>inventoryJson.
     andThen (trackProgress ''converted inventory JSON'') (\<lambda>_.
     andThen (fetch env destinationWebhookUrl senderId inventoryJson) (\<lambda>_.
     andThen (deleteObject env keyToProcess) (\<lambda>_.
     result (results\<lparr>processedKeys := processedKeys results @ [key keyToProcess]\<rparr>)))))"

definition processKey_webhookOnly ::
  "env \<Rightarrow> string \<Rightarrow> KeyToProcess \<Rightarrow> ProcessingResults \<Rightarrow> ProcessingResults io" where
  "processKey_webhookOnly env destinationWebhookUrl keyToProcess results =
     andThen (lift (extractShopIdFromKey (key keyToProcess))) (\<lambda>senderId.
     andThen (getObject env keyToProcess) (\<lambda>fileContents.
     tryCatch
       (processContents_webhookOnly env destinationWebhookUrl keyToProcess senderId
          fileContents results)
       (recordProcessingError keyToProcess results)))"

subsection \<open>Before and after the loop\<close>

text \<open>Decimal digits of a number, as a template literal prints it.\<close>

fun showNat :: "nat \<Rightarrow> string" where
  "showNat n =
     (if n < 10 then [char_of (48 + n)]
      else showNat (n div 10) @ [char_of (48 + n mod 10)])"

declare showNat.simps [simp del]

definition summaryMessage :: "nat \<Rightarrow> nat \<Rightarrow> string" where
  "summaryMessage errorCount keyCount =
     (let keyCountMessage = showNat keyCount @ '' key'' @ (if keyCount > 1 then ''s'' else []);
          errorCountMessage =
            showNat errorCount @ '' error'' @ (if errorCount > 1 then ''s'' else [])
      in ''encountered '' @ errorCountMessage @ '' while attempting to process ''
           @ keyCountMessage)"

text \<open>
  From \<open>recordNewExecution\<close> to the progress event on the grouped keys: the webhook URL and
  the grouped keys, or the exception of the first step that raises.
\<close>

definition prepare :: "env \<Rightarrow> string \<Rightarrow> string \<Rightarrow> (string \<times> GroupedEventKeys) io" where
  "prepare env executionId event =
     andThen (recordNewExecution env executionId event) (\<lambda>_.
     andThen (lift (toBucketNotificationEvent env event)) (\<lambda>records.
     andThen (lift (requiredEnvVar env ''DESTINATION_WEBHOOK_URL'')) (\<lambda>destinationWebhookUrl.
     andThen (lift (groupEventKeys records)) (\<lambda>groupedEventKeys.
     andThen (trackProgress ''grouped event keys'') (\<lambda>_.
     result (destinationWebhookUrl, groupedEventKeys))))))"

definition emptyResults :: "GroupedEventKeys \<Rightarrow> ProcessingResults" where
  "emptyResults groupedEventKeys =
     \<lparr>filteredKeys = groupFilteredKeys groupedEventKeys,
      processingErrors = [],
      processedKeys = []\<rparr>"

text \<open>After the loop: the execution is marked as failed if any key failed.\<close>

definition finish ::
  "string \<Rightarrow> GroupedEventKeys \<Rightarrow> ProcessingResults \<Rightarrow> handlerResult io" where
  "finish executionId groupedEventKeys results =
     (let errorCount = length (processingErrors results) in
      if errorCount > 0 then
        failedExecution executionId
          (Error (summaryMessage errorCount (length (keysToProcess groupedEventKeys))))
      else
        andThen (markExecutionAsSuccessful executionId) (\<lambda>_.
        andThen (trackProgress ''results'') (\<lambda>_.
        result (Results results))))"

definition handlerBody :: "env \<Rightarrow> string \<Rightarrow> string \<Rightarrow> handlerResult io" where
  "handlerBody env executionId event =
     andThen (prepare env executionId event) (\<lambda>(destinationWebhookUrl, groupedEventKeys).
     andThen (processKeys env destinationWebhookUrl (keysToProcess groupedEventKeys)
                (emptyResults groupedEventKeys)) (\<lambda>results.
     finish executionId groupedEventKeys results))"

text \<open>\<open>e instanceof Error ? e : new Error(`unknown error: ${JSON.stringify(e)}`)\<close>\<close>

definition asHandlerError :: "exn \<Rightarrow> exn" where
  "asHandlerError e =
     (case e of
        Error m \<Rightarrow> Error m
      | NonError serialized json \<Rightarrow> Error (''unknown error: '' @ json))"

definition handler :: "env \<Rightarrow> string \<Rightarrow> handlerResult io" where
  "handler env event =
     (let executionId = generateExecutionId env event in
      andThen (trackProgress (''starting '' @ functionName env)) (\<lambda>_.
      tryCatch (handlerBody env executionId event) (\<lambda>e.
        andThen (trackProgress ''handler error'') (\<lambda>_.
        failedExecution executionId (asHandlerError e)))))"

section \<open>An example environment\<close>

text \<open>
  A bucket with a few feed files, a keyed store that answers with the value last written
  under a key (and holds an entry of another sender for sku \<open>X\<close> at the start), a webhook
  that accepts every post. The event text is the list of the changed keys, separated by
  semicolons. The lines and cells of a file are looked up by the file's text: \<open>feed\<close> has
  the three required columns, \<open>noprice\<close> has no price column, and the second row of
  \<open>short\<close> has two cells for three columns.
\<close>

definition exampleFiles :: "(string \<times> string) list" where
  "exampleFiles =
     [(''trading_partners/shop_1/inventory/feed.csv'', ''feed''),
      (''trading_partners/shop_1/inventory/noprice.csv'', ''noprice''),
      (''trading_partners/shop_1/inventory/short.csv'', ''short''),
      (''tp/inventory/x/y.csv'', ''feed'')]"

definition exampleCsv :: "(string \<times> string list \<times> string list list) list" where
  "exampleCsv =
     [(''feed'', [''SKU'', ''Quantity'', ''Price''], [[''X'', ''1'', ''2''], [''Y'', ''3'', ''4'']]),
      (''noprice'', [''SKU'', ''Quantity''], [[''X'', ''1''], [''Y'', ''3'']]),
      (''short'', [''SKU'', ''Quantity'', ''Price''], [[''X'', ''1'', ''2''], [''Y'', ''3'']])]"

definition exampleStash :: "(string option \<times> stashValue) list" where
  "exampleStash = [(Some ''X'', [(''shop_0'', \<lparr>price = Some ''9'', quantity = Some ''7''\<rparr>)])]"

fun lastWritten :: "trace \<Rightarrow> string option \<Rightarrow> stashValue option" where
  "lastWritten [] k = map_of exampleStash k"
| "lastWritten (c # t) k =
     (case c of
        SetValue k' v keyspace \<Rightarrow> if k' = k then Some v else lastWritten t k
      | _ \<Rightarrow> lastWritten t k)"

definition exampleEnv :: env where
  "exampleEnv =
     \<lparr>functionName = ''inventory-feed-processor'',
      generateExecutionId = (\<lambda>event. ''execution-1''),
      recordNewExecution_reply = (\<lambda>t executionId event. None),
      toBucketNotificationEvent =
        (\<lambda>event. Inr (map (\<lambda>k. \<lparr>s3_bucket_name = ''sftp'', s3_object_key = k\<rparr>)
                          (split_str CHR '';'' event))),
      requiredEnvVar =
        (\<lambda>name. if name = ''DESTINATION_WEBHOOK_URL'' then Inr ''https://webhook.example''
                 else Inl (Error ''required environment variable missing'')),
      getObject_reply =
        (\<lambda>t keyToProcess.
           case map_of exampleFiles (key keyToProcess) of
             None \<Rightarrow> Inl (Error ''NoSuchKey'')
           | Some text \<Rightarrow> Inr text),
      papaparse_header =
        (\<lambda>inputCsv. case map_of exampleCsv inputCsv of
                       None \<Rightarrow> []
                     | Some (header, rows) \<Rightarrow> header),
      papaparse_rows =
        (\<lambda>inputCsv. case map_of exampleCsv inputCsv of
                       None \<Rightarrow> []
                     | Some (header, rows) \<Rightarrow> rows),
      papaparse_errors =
        (\<lambda>inputCsv. case map_of exampleCsv inputCsv of
                       None \<Rightarrow> [''UndetectableDelimiter'']
                     | Some (header, rows) \<Rightarrow> []),
      fetch_reply = (\<lambda>t url senderId inventoryJson. None),
      getValue_reply = (\<lambda>t k. Inr (lastWritten (rev t) k)),
      setValue_reply = (\<lambda>t k v. None),
      deleteObject_reply = (\<lambda>t keyToProcess. None)\<rparr>"

definition completeRow :: item where
  "completeRow = [(''sku'', ''X''), (''quantity'', ''1''), (''price'', ''2'')]"

definition incompleteRowX :: item where
  "incompleteRowX = [(''sku'', ''X''), (''quantity'', ''1'')]"

definition incompleteRow :: item where
  "incompleteRow = [(''sku'', ''Y''), (''quantity'', ''3'')]"

definition feedKey :: KeyToProcess where
  "feedKey = \<lparr>bucketName = ''sftp'', key = ''trading_partners/shop_1/inventory/feed.csv''\<rparr>"

definition nopriceKey :: KeyToProcess where
  "nopriceKey =
     \<lparr>bucketName = ''sftp'', key = ''trading_partners/shop_1/inventory/noprice.csv''\<rparr>"

definition noResults :: ProcessingResults where
  "noResults = \<lparr>filteredKeys = [], processingErrors = [], processedKeys = []\<rparr>"

section \<open>The statements to compare with\<close>

text \<open>
  The maximal runs of a text for a character class: the text cut wherever membership in
  the class changes. Collapsing replaces every run of class characters by one underscore.
\<close>

fun runs :: "(char \<Rightarrow> bool) \<Rightarrow> string \<Rightarrow> string list" where
  "runs cls [] = []"
| "runs cls (c # cs) =
     (case runs cls cs of
        [] \<Rightarrow> [[c]]
      | r # rs \<Rightarrow> if cls (hd r) = cls c then (c # r) # rs else [c] # r # rs)"

definition collapseRuns :: "(char \<Rightarrow> bool) \<Rightarrow> string \<Rightarrow> string" where
  "collapseRuns cls s = concat (map (\<lambda>r. if cls (hd r) then ''_'' else r) (runs cls s))"

definition spaceOrSlash :: "char \<Rightarrow> bool" where
  "spaceOrSlash c = (c = CHR '' '' \<or> c = CHR ''/'')"

text \<open>
  The classifier's rules, on the raw key: a key that ends with the path separator is a
  folder; a key with fewer than two segments, or whose second-to-last segment is not
  \<open>inventory\<close>, is not an item of an inventory directory; every other key is eligible.
\<close>

datatype classification = Folder | NotInventory | Eligible

definition classify :: "string \<Rightarrow> classification" where
  "classify rawKey =
     (if rawKey \<noteq> [] \<and> last rawKey = CHR ''/'' then Folder
      else if length (split_str CHR ''/'' rawKey) < 2
              \<or> last (butlast (split_str CHR ''/'' rawKey)) \<noteq> ''inventory''
      then NotInventory
      else Eligible)"

text \<open>What a record adds to the filtered keys, and to the keys to process.\<close>

definition filteredEntries :: "BucketNotificationRecord \<Rightarrow> FilteredKey list" where
  "filteredEntries record =
     (case classify (s3_object_key record) of
        Folder \<Rightarrow>
          [\<lparr>filteredKey = s3_object_key record, reason = ''key represents a folder''\<rparr>]
      | NotInventory \<Rightarrow>
          [\<lparr>filteredKey = s3_object_key record,
            reason = ''key does not match an item in an `inventory` directory''\<rparr>]
      | Eligible \<Rightarrow> [])"

definition eligibleEntries :: "BucketNotificationRecord \<Rightarrow> KeyToProcess list" where
  "eligibleEntries record =
     (case classify (s3_object_key record) of
        Eligible \<Rightarrow>
          (case decodeObjectKey (s3_object_key record) of
             Inr decoded \<Rightarrow> [\<lparr>bucketName = s3_bucket_name record, key = decoded\<rparr>]
           | Inl e \<Rightarrow> [])
      | _ \<Rightarrow> [])"

definition undecodable :: "BucketNotificationRecord \<Rightarrow> bool" where
  "undecodable record =
     (classify (s3_object_key record) = Eligible \<and> isl (decodeObjectKey (s3_object_key record)))"

text \<open>The number a text of decimal digits stands for.\<close>

definition isDigit :: "char \<Rightarrow> bool" where
  "isDigit c = (48 \<le> (of_char c :: nat) \<and> (of_char c :: nat) \<le> 57)"

definition decimalValue :: "string \<Rightarrow> nat" where
  "decimalValue s = foldl (\<lambda>n c. 10 * n + ((of_char c :: nat) - 48)) 0 s"

text \<open>Commands by kind, and the write of an item: a value set under the item's sku that
  carries the item's price and quantity for the sender.\<close>

definition isFetch :: "command \<Rightarrow> bool" where
  "isFetch c = (case c of Fetch url senderId body \<Rightarrow> True | _ \<Rightarrow> False)"

definition isSetValue :: "command \<Rightarrow> bool" where
  "isSetValue c = (case c of SetValue k v keyspace \<Rightarrow> True | _ \<Rightarrow> False)"

definition isDeleteObject :: "command \<Rightarrow> bool" where
  "isDeleteObject c = (case c of DeleteObject k \<Rightarrow> True | _ \<Rightarrow> False)"

definition isWriteOf :: "string \<Rightarrow> item \<Rightarrow> command \<Rightarrow> bool" where
  "isWriteOf senderId item c =
     (case c of
        SetValue k v keyspace \<Rightarrow>
          k = getProp item ''sku'' \<and> keyspace = INVENTORY_DATA_STASH_KEYSPACE_NAME
          \<and> map_of v senderId =
              Some \<lparr>price = getProp item ''price'', quantity = getProp item ''quantity''\<rparr>
      | _ \<Rightarrow> False)"

text \<open>The commands of the callbacks over some items: reads, and writes of items that
  have every required attribute.\<close>

definition stashCommand :: "string \<Rightarrow> item list \<Rightarrow> command \<Rightarrow> bool" where
  "stashCommand senderId items c =
     (case c of
        GetValue k keyspace \<Rightarrow> True
      | SetValue k v keyspace \<Rightarrow>
          list_ex (\<lambda>item. \<not> missingRequiredAttribute item \<and> isWriteOf senderId item c) items
      | _ \<Rightarrow> False)"

section \<open>Properties of the header normalisation\<close>

lemma runs_Cons_hd: "\<exists>r rs. runs cls (c # cs) = (c # r) # rs"
  by (cases "runs cls cs") auto

lemma concat_runs: "concat (runs cls s) = s"
  by (induction s) (auto split: list.splits)

text \<open>The runs are not empty, uniform, and maximal: neighbours differ in class.\<close>

lemma runs_nonempty: "r \<in> set (runs cls s) \<Longrightarrow> r \<noteq> []"
  by (induction s arbitrary: r) (auto split: list.splits if_splits)

lemma runs_same_class: "r \<in> set (runs cls s) \<Longrightarrow> c \<in> set r \<Longrightarrow> cls c = cls (hd r)"
proof (induction s arbitrary: r c)
  case Nil
  then show ?case by simp
next
  case (Cons d ds)
  show ?case
  proof (cases "runs cls ds")
    case Nil
    with Cons.prems show ?thesis by simp
  next
    case (Cons q qs)
    have q: "\<And>x. x \<in> set q \<Longrightarrow> cls x = cls (hd q)"
      using Cons.IH [of q] Cons by simp
    have qs: "\<And>p x. p \<in> set qs \<Longrightarrow> x \<in> set p \<Longrightarrow> cls x = cls (hd p)"
      using Cons.IH Cons by simp
    from Cons.prems Cons show ?thesis
      by (auto split: if_splits dest: q qs)
  qed
qed

lemma runs_alternate:
  "runs cls s = before @ r1 # r2 # after \<Longrightarrow> cls (hd r1) \<noteq> cls (hd r2)"
proof (induction s arbitrary: before r1)
  case Nil
  then show ?case by simp
next
  case (Cons c cs)
  show ?case
  proof (cases "runs cls cs")
    case Nil
    with Cons.prems show ?thesis by (cases before) auto
  next
    case (Cons r rs)
    note rs = Cons
    show ?thesis
    proof (cases "cls (hd r) = cls c")
      case True
      with rs Cons.prems have eq: "(c # r) # rs = before @ r1 # r2 # after" by simp
      show ?thesis
      proof (cases before)
        case Nil
        with eq have "r1 = c # r" "rs = r2 # after" by auto
        with rs have "runs cls cs = [] @ r # r2 # after" by simp
        from Cons.IH [OF this] True \<open>r1 = c # r\<close> show ?thesis by simp
      next
        case (Cons b bs)
        with eq have "rs = bs @ r1 # r2 # after" by auto
        with rs have "runs cls cs = (r # bs) @ r1 # r2 # after" by simp
        from Cons.IH [OF this] show ?thesis .
      qed
    next
      case False
      with rs Cons.prems have eq: "[c] # r # rs = before @ r1 # r2 # after" by simp
      show ?thesis
      proof (cases before)
        case Nil
        with eq have "r1 = [c]" "r2 = r" by auto
        with False show ?thesis by auto
      next
        case (Cons b bs)
        with eq have "r # rs = bs @ r1 # r2 # after" by auto
        with rs have "runs cls cs = bs @ r1 # r2 # after" by simp
        from Cons.IH [OF this] show ?thesis .
      qed
    qed
  qed
qed

lemma collapseRuns_other:
  "\<not> cls c \<Longrightarrow> collapseRuns cls (c # cs) = c # collapseRuns cls cs"
  by (cases "runs cls cs") (auto simp: collapseRuns_def)

lemma collapseRuns_class:
  "cls c \<Longrightarrow> collapseRuns cls (c # cs) = CHR ''_'' # collapseRuns cls (dropWhile cls cs)"
proof (induction cs arbitrary: c)
  case Nil
  then show ?case by (simp add: collapseRuns_def)
next
  case (Cons d ds)
  obtain r rs where r: "runs cls (d # ds) = (d # r) # rs"
    using runs_Cons_hd by blast
  show ?case
  proof (cases "cls d")
    case True
    have "collapseRuns cls (c # d # ds) = collapseRuns cls (d # ds)"
      using True Cons.prems r by (simp add: collapseRuns_def del: runs.simps(2)) (simp add: r)
    then show ?thesis using Cons.IH [OF True] True by simp
  next
    case False
    then show ?thesis
      using Cons.prems r by (simp add: collapseRuns_def del: runs.simps(2)) (simp add: r)
  qed
qed

lemma replaceRuns_collapse: "replaceRuns cls s = collapseRuns cls s"
  by (induction cls s rule: replaceRuns.induct)
     (simp_all add: collapseRuns_other collapseRuns_class, simp add: collapseRuns_def)

section \<open>Properties of the classifier\<close>

lemma prepend_Inl: "prepend s r = Inl e \<Longrightarrow> r = Inl e"
  by (cases r) auto

lemma endsWith_slash: "endsWith k ''/'' \<longleftrightarrow> k \<noteq> [] \<and> last k = CHR ''/''"
  by (cases k rule: rev_cases) (auto simp: endsWith_def)

lemma second_to_last:
  assumes "2 \<le> length xs"
  shows "xs ! (length xs - 2) = last (butlast xs)"
proof -
  from assms obtain ys z where xs: "xs = ys @ [z]"
    by (cases xs rule: rev_cases) auto
  with assms have "ys \<noteq> []"
    by auto
  then obtain ws y where ys: "ys = ws @ [y]"
    by (cases ys rule: rev_cases) auto
  show ?thesis
    unfolding xs ys by (simp add: nth_append butlast_append)
qed

lemma decode_raises_URIError: "decode need octets s = Inl e \<Longrightarrow> e = URIError"
proof (induction need octets s rule: decode.induct)
  case (1 need octets)
  then show ?case by (simp split: if_splits)
next
  case (2 need octets c cs)
  show ?case
  proof (cases "c = CHR ''%''")
    case False
    with 2 show ?thesis
      by (cases "need = 0") (auto dest!: prepend_Inl)
  next
    case True
    note pc = True
    show ?thesis
    proof (cases cs)
      case Nil
      with 2 pc show ?thesis by simp
    next
      case (Cons h1 cs1)
      note c1 = Cons
      show ?thesis
      proof (cases cs1)
        case Nil
        with 2 pc c1 show ?thesis by simp
      next
        case (Cons h2 rest)
        note c2 = Cons
        show ?thesis
        proof (cases "parseHexOctet h1 h2")
          case None
          with 2 pc c1 c2 show ?thesis by simp
        next
          case (Some b)
          consider (a) "need = 0" "leadingOnes b = 0"
            | (b) "need = 0" "leadingOnes b \<noteq> 0" "leadingOnes b = 1 \<or> 4 < leadingOnes b"
            | (c) "need = 0" "leadingOnes b \<noteq> 0" "\<not> (leadingOnes b = 1 \<or> 4 < leadingOnes b)"
            | (d) "need \<noteq> 0" "need = 1" "validUtf8 (octets @ [b])"
            | (e) "need \<noteq> 0" "need = 1" "\<not> validUtf8 (octets @ [b])"
            | (f) "need \<noteq> 0" "need \<noteq> 1"
            by blast
          then show ?thesis
          proof cases
            case a
            with 2(1) [OF pc c1 c2 Some] 2(6) pc c1 c2 Some show ?thesis
              by (auto simp: Let_def dest!: prepend_Inl)
          next
            case b
            with 2(6) pc c1 c2 Some show ?thesis by (auto simp: Let_def)
          next
            case c
            with 2(2) [OF pc c1 c2 Some] 2(6) pc c1 c2 Some show ?thesis
              by (auto simp: Let_def)
          next
            case d
            with 2(3) [OF pc c1 c2 Some] 2(6) pc c1 c2 Some show ?thesis
              by (auto simp: Let_def dest!: prepend_Inl)
          next
            case e
            with 2(6) pc c1 c2 Some show ?thesis by (auto simp: Let_def)
          next
            case f
            with 2(4) [OF pc c1 c2 Some] 2(6) pc c1 c2 Some show ?thesis
              by (auto simp: Let_def)
          qed
        qed
      qed
    qed
  qed
qed

lemma one_entry_per_record:
  "\<not> undecodable record \<Longrightarrow>
     length (filteredEntries record) + length (eligibleEntries record) = 1"
  by (auto simp: filteredEntries_def eligibleEntries_def undecodable_def
      split: classification.splits sum.splits)

lemma decodeObjectKey_raises_URIError: "decodeObjectKey k = Inl e \<Longrightarrow> e = URIError"
  by (auto simp: decodeObjectKey_def decodeURIComponent_def dest: decode_raises_URIError)

text \<open>A key without \<open>%\<close> and \<open>+\<close> decodes to itself.\<close>

lemma decode_plain:
  "CHR ''%'' \<notin> set s \<Longrightarrow> decode 0 [] s = Inr s"
  by (induction s) auto

lemma decodeObjectKey_plain:
  "CHR ''%'' \<notin> set s \<Longrightarrow> CHR ''+'' \<notin> set s \<Longrightarrow> decodeObjectKey s = Inr s"
proof -
  assume a: "CHR ''%'' \<notin> set s" and b: "CHR ''+'' \<notin> set s"
  from b have "replacePlus s = s"
    by (induction s) (auto simp: replacePlus_def)
  with a show ?thesis
    by (simp add: decodeObjectKey_def decodeURIComponent_def decode_plain)
qed

lemma groupEventKey_folder:
  "classify (s3_object_key record) = Folder \<Longrightarrow>
   groupEventKey (fs, ks) record =
     Inr (fs @ [\<lparr>filteredKey = s3_object_key record, reason = ''key represents a folder''\<rparr>], ks)"
  by (simp add: groupEventKey_def classify_def endsWith_slash split: if_splits)

lemma groupEventKey_notInventory:
  "classify (s3_object_key record) = NotInventory \<Longrightarrow>
   groupEventKey (fs, ks) record =
     Inr (fs @ [\<lparr>filteredKey = s3_object_key record,
                 reason = ''key does not match an item in an `inventory` directory''\<rparr>], ks)"
  by (auto simp: groupEventKey_def classify_def endsWith_slash Let_def second_to_last not_less
      split: if_splits)

lemma groupEventKey_eligible:
  "classify (s3_object_key record) = Eligible \<Longrightarrow>
   groupEventKey (fs, ks) record =
     (case decodeObjectKey (s3_object_key record) of
        Inl e \<Rightarrow> Inl e
      | Inr decoded \<Rightarrow> Inr (fs, ks @ [\<lparr>bucketName = s3_bucket_name record, key = decoded\<rparr>]))"
  by (auto simp: groupEventKey_def classify_def endsWith_slash Let_def second_to_last not_less
      split: if_splits)

lemma groupEventKey_classify:
  "groupEventKey (fs, ks) record =
     (if undecodable record then Inl URIError
      else Inr (fs @ filteredEntries record, ks @ eligibleEntries record))"
proof (cases "classify (s3_object_key record)")
  case Folder
  then show ?thesis
    by (simp add: groupEventKey_folder undecodable_def filteredEntries_def eligibleEntries_def)
next
  case NotInventory
  then show ?thesis
    by (simp add: groupEventKey_notInventory undecodable_def filteredEntries_def
        eligibleEntries_def)
next
  case Eligible
  show ?thesis
  proof (cases "decodeObjectKey (s3_object_key record)")
    case (Inl e)
    then have "e = URIError" by (rule decodeObjectKey_raises_URIError)
    with Inl Eligible show ?thesis
      by (simp add: groupEventKey_eligible undecodable_def)
  next
    case (Inr d)
    with Eligible show ?thesis
      by (simp add: groupEventKey_eligible undecodable_def filteredEntries_def
          eligibleEntries_def)
  qed
qed

lemma reduceEventKeys_classify:
  "reduceEventKeys records (fs, ks) =
     (if list_ex undecodable records then Inl URIError
      else Inr (fs @ concat (map filteredEntries records),
                ks @ concat (map eligibleEntries records)))"
  by (induction records arbitrary: fs ks) (simp_all add: groupEventKey_classify)

lemma groupEventKeys_classify:
  "groupEventKeys records =
     (if list_ex undecodable records then Inl URIError
      else Inr \<lparr>groupFilteredKeys = concat (map filteredEntries records),
                keysToProcess = concat (map eligibleEntries records)\<rparr>)"
  by (simp add: groupEventKeys_def reduceEventKeys_classify)

section \<open>Properties of the calls, the callback and the end of the handler\<close>

lemma andThen_result: "andThen (result a) f t = f a t"
  by (simp add: andThen_def result_def)

lemma andThen_trackProgress:
  "andThen (trackProgress message) f t = f () (t @ [TrackProgress message])"
  by (simp add: andThen_def trackProgress_def)

lemma andThen_lift:
  "andThen (lift r) f t = (case r of Inl e \<Rightarrow> (Inl e, t) | Inr a \<Rightarrow> f a t)"
  by (simp add: andThen_def lift_def split: sum.splits)

lemma map_of_spreadWith: "map_of (spreadWith obj k v) = (map_of obj)(k \<mapsto> v)"
  by (induction obj k v rule: spreadWith.induct) auto

lemma stashItem_skips:
  "missingRequiredAttribute item \<Longrightarrow>
   stashItem env senderId skipped item t = (Inr (skipped @ [item]), t)"
  by (simp add: stashItem_def result_def)

lemma stashItem_get_fails:
  "\<not> missingRequiredAttribute item \<Longrightarrow>
   getValue_reply env t (getProp item ''sku'') = Inl e \<Longrightarrow>
   stashItem env senderId skipped item t =
     (Inl e, t @ [GetValue (getProp item ''sku'') INVENTORY_DATA_STASH_KEYSPACE_NAME])"
  by (simp add: stashItem_def andThen_def getValue_def)

lemma stashItem_writes:
  "\<not> missingRequiredAttribute item \<Longrightarrow>
   getValue_reply env t (getProp item ''sku'') = Inr existing \<Longrightarrow>
   stashItem env senderId skipped item t =
     (case setValue_reply env (t @ [GetValue (getProp item ''sku'') INVENTORY_DATA_STASH_KEYSPACE_NAME])
             (getProp item ''sku'') (mergedValue existing senderId item) of
        None \<Rightarrow> Inr skipped
      | Some e \<Rightarrow> Inl e,
      t @ [GetValue (getProp item ''sku'') INVENTORY_DATA_STASH_KEYSPACE_NAME,
           SetValue (getProp item ''sku'') (mergedValue existing senderId item)
             INVENTORY_DATA_STASH_KEYSPACE_NAME])"
  by (simp add: stashItem_def andThen_def getValue_def setValue_def replied_def result_def
      split: option.splits)

lemma finish_result:
  "finish executionId g r t =
     (if processingErrors r = []
      then (Inr (Results r), t @ [MarkExecutionAsSuccessful executionId, TrackProgress ''results''])
      else (Inr (Failed executionId
                   (Error (summaryMessage (length (processingErrors r)) (length (keysToProcess g))))),
            t @ [FailedExecution executionId
                   (Error (summaryMessage (length (processingErrors r))
                             (length (keysToProcess g))))]))"
  by (simp add: finish_def failedExecution_def andThen_def markExecutionAsSuccessful_def
      trackProgress_def result_def)


text \<open>
  The summary message spells the two counts in decimal digits: the number of errors first,
  then the number of keys the loop was to process.
\<close>

lemma decimalValue_snoc:
  "decimalValue (s @ [c]) = 10 * decimalValue s + ((of_char c :: nat) - 48)"
  by (simp add: decimalValue_def)

lemma showNat_decimal: "list_all isDigit (showNat n) \<and> decimalValue (showNat n) = n"
proof (induction n rule: showNat.induct)
  case (1 n)
  show ?case
  proof (cases "n < 10")
    case True
    then have "showNat n = [char_of (48 + n)]"
      by (subst showNat.simps) simp
    moreover from True have "(of_char (char_of (48 + n)) :: nat) = 48 + n"
      by simp
    ultimately show ?thesis
      using True by (simp add: isDigit_def decimalValue_def)
  next
    case False
    then have unfold: "showNat n = showNat (n div 10) @ [char_of (48 + n mod 10)]"
      by (subst showNat.simps) simp
    have digit: "(of_char (char_of (48 + n mod 10)) :: nat) = 48 + n mod 10"
      by simp
    have "n mod 10 \<le> 9"
      by arith
    with digit have isDigit: "isDigit (char_of (48 + n mod 10))"
      by (simp add: isDigit_def)
    from 1 [OF False] have ih: "list_all isDigit (showNat (n div 10))"
      "decimalValue (showNat (n div 10)) = n div 10"
      by simp_all
    show ?thesis
      unfolding unfold using ih digit isDigit
      by (simp add: decimalValue_snoc)
  qed
qed

lemma summaryMessage_counts:
  "\<exists>errorDigits keyDigits.
     summaryMessage errorCount keyCount =
       ''encountered '' @ errorDigits @ '' error'' @ (if 1 < errorCount then ''s'' else [])
         @ '' while attempting to process ''
         @ keyDigits @ '' key'' @ (if 1 < keyCount then ''s'' else [])
   \<and> list_all isDigit errorDigits \<and> decimalValue errorDigits = errorCount
   \<and> list_all isDigit keyDigits \<and> decimalValue keyDigits = keyCount"
  by (intro exI [of _ "showNat errorCount"] exI [of _ "showNat keyCount"])
     (simp add: summaryMessage_def Let_def showNat_decimal)

text \<open>
  When the set-up succeeds and the loop over the keys runs to its end, the execution is
  marked as successful and the results are returned if there is no processing error;
  otherwise the summary error goes to \<open>failedExecution\<close>.
\<close>

lemma handler_after_the_loop:
  assumes "prepare env (generateExecutionId env event) event
             (t @ [TrackProgress (''starting '' @ functionName env)])
           = (Inr (destinationWebhookUrl, groupedEventKeys), t1)"
    and "processKeys env destinationWebhookUrl (keysToProcess groupedEventKeys)
           (emptyResults groupedEventKeys) t1 = (Inr results, t2)"
  shows "handler env event t =
           (if processingErrors results = []
            then (Inr (Results results),
                  t2 @ [MarkExecutionAsSuccessful (generateExecutionId env event),
                        TrackProgress ''results''])
            else (Inr (Failed (generateExecutionId env event)
                         (Error (summaryMessage (length (processingErrors results))
                                   (length (keysToProcess groupedEventKeys))))),
                  t2 @ [FailedExecution (generateExecutionId env event)
                          (Error (summaryMessage (length (processingErrors results))
                                    (length (keysToProcess groupedEventKeys))))]))"
proof -
  have "handlerBody env (generateExecutionId env event) event
          (t @ [TrackProgress (''starting '' @ functionName env)])
        = finish (generateExecutionId env event) groupedEventKeys results t2"
    using assms by (simp add: handlerBody_def andThen_def)
  then show ?thesis
    by (simp add: handler_def Let_def andThen_trackProgress tryCatch_def finish_result)
qed

text \<open>
  When a round of the loop raises, the execution is finalised as a failure with that
  error, whatever the processing errors gathered so far.
\<close>

lemma handler_after_a_raise:
  assumes "prepare env (generateExecutionId env event) event
             (t @ [TrackProgress (''starting '' @ functionName env)])
           = (Inr (destinationWebhookUrl, groupedEventKeys), t1)"
    and "processKeys env destinationWebhookUrl (keysToProcess groupedEventKeys)
           (emptyResults groupedEventKeys) t1 = (Inl e, t2)"
  shows "handler env event t =
           (Inr (Failed (generateExecutionId env event) (asHandlerError e)),
            t2 @ [TrackProgress ''handler error'',
                  FailedExecution (generateExecutionId env event) (asHandlerError e)])"
proof -
  have "handlerBody env (generateExecutionId env event) event
          (t @ [TrackProgress (''starting '' @ functionName env)]) = (Inl e, t2)"
    using assms by (simp add: handlerBody_def andThen_def)
  then show ?thesis
    by (simp add: handler_def Let_def andThen_trackProgress tryCatch_def failedExecution_def)
qed

text \<open>
  A batch of \<open>noprice.csv\<close> and \<open>feed.csv\<close>: the loop runs to its end, with one
  error for two keys.
\<close>

lemma summary_error_of_two_keys:
  "fst (handler exampleEnv
          ''trading_partners/shop_1/inventory/noprice.csv;trading_partners/shop_1/inventory/feed.csv''
          [])
     = Inr (Failed ''execution-1''
              (Error ''encountered 1 error while attempting to process 2 keys''))"
  by code_simp

section \<open>Properties of the converter\<close>

text \<open>
  The rows the converter returns share their columns: a row that has not as many cells as
  there are columns is an error of the library, and the converter raises on any error.
\<close>

lemma keys_spreadWith: "fst ` set (spreadWith obj k v) = insert k (fst ` set obj)"
  by (induction obj k v rule: spreadWith.induct) auto

lemma keys_foldl_spreadWith:
  "fst ` set (foldl (\<lambda>obj (field, cell). spreadWith obj field cell) obj cells)
     = fst ` set obj \<union> fst ` set cells"
proof (induction cells arbitrary: obj)
  case Nil
  then show ?case by simp
next
  case (Cons c cells)
  obtain k v where c: "c = (k, v)"
    by (cases c)
  have "fst ` set (foldl (\<lambda>obj (field, cell). spreadWith obj field cell) obj (c # cells))
          = insert k (fst ` set obj) \<union> fst ` set cells"
    by (simp add: c Cons.IH keys_spreadWith)
  then show ?case
    by (simp add: c)
qed

lemma hasOwnProperty_keys: "hasOwnProperty obj attribute \<longleftrightarrow> attribute \<in> fst ` set obj"
  by (simp add: hasOwnProperty_def map_of_eq_None_iff)

lemma hasOwnProperty_processRow:
  assumes "length row = length columns"
  shows "hasOwnProperty (processRow columns row) attribute \<longleftrightarrow> attribute \<in> set columns"
proof -
  have "fst ` set (zip columns row) = set columns"
    using assms by (metis map_fst_zip set_map)
  then show ?thesis
    by (simp add: hasOwnProperty_keys processRow_def keys_foldl_spreadWith)
qed

lemma fieldMismatch_none: "fieldMismatch columns row = [] \<longleftrightarrow> length row = length columns"
  by (auto simp: fieldMismatch_def)

lemma convertCsvToJson_rows:
  assumes "convertCsvToJson env inputCsv transform = Inr inventoryJson"
  shows "inventoryJson =
           map (processRow (map transform (papaparse_header env inputCsv)))
             (papaparse_rows env inputCsv)
       \<and> (\<forall>row \<in> set (papaparse_rows env inputCsv).
             length row = length (map transform (papaparse_header env inputCsv)))"
  using assms
  by (auto simp: convertCsvToJson_def papaparse_parse_def Let_def fieldMismatch_none
      split: if_splits)

lemma converted_rows_share_columns:
  assumes "convertCsvToJson env inputCsv transform = Inr inventoryJson"
    and "item \<in> set inventoryJson"
  shows "hasOwnProperty item attribute
           \<longleftrightarrow> attribute \<in> set (map transform (papaparse_header env inputCsv))"
proof -
  from convertCsvToJson_rows [OF assms(1)] assms(2) obtain row where
    "row \<in> set (papaparse_rows env inputCsv)"
    "item = processRow (map transform (papaparse_header env inputCsv)) row"
    "length row = length (map transform (papaparse_header env inputCsv))"
    by auto
  then show ?thesis
    using hasOwnProperty_processRow by blast
qed

lemma one_skipped_all_skipped:
  assumes "convertCsvToJson env inputCsv transform = Inr inventoryJson"
    and "list_ex missingRequiredAttribute inventoryJson"
  shows "list_all missingRequiredAttribute inventoryJson"
proof -
  from assms(2) obtain item where item: "item \<in> set inventoryJson"
    "missingRequiredAttribute item"
    by (auto simp: list_ex_iff)
  have "missingRequiredAttribute other" if "other \<in> set inventoryJson" for other
    using item(2) converted_rows_share_columns [OF assms(1) item(1)]
      converted_rows_share_columns [OF assms(1) that]
    by (simp add: missingRequiredAttribute_def list_ex_iff)
  then show ?thesis
    by (simp add: list_all_iff)
qed

text \<open>In the example, a short row is an error, and the converter raises.\<close>

lemma short_row_is_an_error:
  "convertCsvToJson exampleEnv ''short'' transformHeader
     = Inl (Error ''error encountered converting CSV to JSON: [object Object]'')"
  by code_simp

section \<open>Properties of the callbacks over the rows of a file\<close>

lemma stashItem_commands:
  "\<exists>new. snd (stashItem env senderId skipped item t) = t @ new
         \<and> list_all (stashCommand senderId [item]) new"
proof (cases "missingRequiredAttribute item")
  case True
  then show ?thesis by (simp add: stashItem_skips)
next
  case False
  show ?thesis
  proof (cases "getValue_reply env t (getProp item ''sku'')")
    case (Inl e)
    with False show ?thesis
      by (simp add: stashItem_get_fails stashCommand_def)
  next
    case (Inr existing)
    with False show ?thesis
      by (simp add: stashItem_writes stashCommand_def isWriteOf_def mergedValue_def
          map_of_spreadWith)
  qed
qed

lemma stashCommand_mono:
  "stashCommand senderId items c \<Longrightarrow> set items \<subseteq> set items' \<Longrightarrow>
   stashCommand senderId items' c"
  by (auto simp: stashCommand_def list_ex_iff split: command.splits)

lemma stashItems_commands:
  "\<exists>new. snd (stashItems env senderId items skipped t) = t @ new
         \<and> list_all (stashCommand senderId items) new"
proof (induction items arbitrary: skipped t)
  case Nil
  then show ?case by (simp add: result_def)
next
  case (Cons item items)
  obtain new1 where new1: "snd (stashItem env senderId skipped item t) = t @ new1"
    "list_all (stashCommand senderId [item]) new1"
    using stashItem_commands by blast
  have m1: "list_all (stashCommand senderId (item # items)) new1"
    using new1(2) by (auto simp: list_all_iff intro: stashCommand_mono)
  show ?case
  proof (cases "stashItem env senderId skipped item t")
    case (Pair outcome t1)
    with new1 have t1: "t1 = t @ new1" by simp
    have rest: "\<exists>new2. snd (stashItems env senderId items skipped' t1) = t1 @ new2
                  \<and> list_all (stashCommand senderId (item # items)) new2" for skipped'
    proof -
      obtain new2 where new2: "snd (stashItems env senderId items skipped' t1) = t1 @ new2"
        "list_all (stashCommand senderId items) new2"
        using Cons.IH by blast
      have "list_all (stashCommand senderId (item # items)) new2"
        using new2(2) by (auto simp: list_all_iff intro: stashCommand_mono)
      with new2(1) show ?thesis by blast
    qed
    show ?thesis
    proof (cases outcome)
      case (Inl e)
      from rest [of skipped] obtain new2 where
        "snd (stashItems env senderId items skipped t1) = t1 @ new2"
        "list_all (stashCommand senderId (item # items)) new2"
        by blast
      with Pair Inl t1 m1 show ?thesis by simp
    next
      case (Inr skipped')
      from rest [of skipped'] obtain new2 where
        "snd (stashItems env senderId items skipped' t1) = t1 @ new2"
        "list_all (stashCommand senderId (item # items)) new2"
        by blast
      with Pair Inr t1 m1 show ?thesis by simp
    qed
  qed
qed

lemma stashItem_skipped:
  "stashItem env senderId skipped item t = (Inr skipped', t') \<Longrightarrow>
   skipped' = skipped @ filter missingRequiredAttribute [item]"
  by (auto simp: stashItem_def andThen_def result_def split: if_splits prod.splits sum.splits)

lemma stashItems_skipped:
  "stashItems env senderId items skipped t = (Inr skipped', t') \<Longrightarrow>
   skipped' = skipped @ filter missingRequiredAttribute items"
proof (induction items arbitrary: skipped t)
  case Nil
  then show ?case by (simp add: result_def)
next
  case (Cons item items)
  from Cons.prems obtain skipped1 t1 where
    first: "stashItem env senderId skipped item t = (Inr skipped1, t1)" and
    rest: "stashItems env senderId items skipped1 t1 = (Inr skipped', t')"
    by (auto split: prod.splits sum.splits)
  from first have "skipped1 = skipped @ filter missingRequiredAttribute [item]"
    by (rule stashItem_skipped)
  moreover from rest have "skipped' = skipped1 @ filter missingRequiredAttribute items"
    by (rule Cons.IH)
  ultimately show ?case by simp
qed

text \<open>When every row misses a required attribute, no call is made on the store.\<close>

lemma stashItems_all_skipped:
  "list_all missingRequiredAttribute items \<Longrightarrow>
   stashItems env senderId items skipped t = (Inr (skipped @ items), t)"
  by (induction items arbitrary: skipped) (simp_all add: result_def stashItem_skips)

lemma processContents_unfold:
  assumes "convertCsvToJson env fileContents transformHeader = Inr inventoryJson"
  shows "processContents env url k senderId fileContents results t =
     (case fetch_reply env (t @ [TrackProgress ''converted inventory JSON'']) url senderId
             inventoryJson of
        Some e \<Rightarrow>
          (Inl e, t @ [TrackProgress ''converted inventory JSON'', Fetch url senderId inventoryJson])
      | None \<Rightarrow>
          (case stashItems env senderId inventoryJson []
                  (t @ [TrackProgress ''converted inventory JSON'',
                        Fetch url senderId inventoryJson]) of
             (Inl e, t3) \<Rightarrow> (Inl e, t3)
           | (Inr skipped, t3) \<Rightarrow>
               if skipped \<noteq> [] then
                 (Inr (results\<lparr>processingErrors := processingErrors results @
                         [\<lparr>errorKey = key k, error = Error skipMessage\<rparr>]\<rparr>),
                  t3 @ [TrackProgress skipMessage])
               else
                 (case deleteObject_reply env t3 k of
                    Some e \<Rightarrow> (Inl e, t3 @ [DeleteObject k])
                  | None \<Rightarrow>
                      (Inr (results\<lparr>processedKeys := processedKeys results @ [key k]\<rparr>),
                       t3 @ [DeleteObject k]))))"
  using assms
  by (simp add: processContents_def andThen_lift andThen_trackProgress)
     (simp add: andThen_def fetch_def replied_def deleteObject_def trackProgress_def result_def
      split: option.splits prod.splits sum.splits)

section \<open>Properties of the loop over the keys\<close>

lemma processContents_outcome:
  assumes "processContents env url k senderId fileContents results t = (Inr r', t')"
  shows "r' = results\<lparr>processingErrors := processingErrors results @
                 [\<lparr>errorKey = key k, error = Error skipMessage\<rparr>]\<rparr>
       \<or> r' = results\<lparr>processedKeys := processedKeys results @ [key k]\<rparr>"
proof (cases "convertCsvToJson env fileContents transformHeader")
  case (Inl e)
  with assms show ?thesis
    by (simp add: processContents_def andThen_def lift_def)
next
  case (Inr inventoryJson)
  from assms show ?thesis
    unfolding processContents_unfold [OF Inr]
    by (auto split: option.splits prod.splits sum.splits if_splits)
qed

lemma processKey_cases:
  "processKey env url k results t =
     (case extractShopIdFromKey (key k) of
        Inl e \<Rightarrow> (Inl e, t)
      | Inr senderId \<Rightarrow>
          (case getObject_reply env t k of
             Inl e \<Rightarrow> (Inl e, t @ [GetObject k])
           | Inr fileContents \<Rightarrow>
               (case processContents env url k senderId fileContents results
                       (t @ [GetObject k]) of
                  (Inl e, t') \<Rightarrow>
                    (Inr (results\<lparr>processingErrors := processingErrors results @
                            [\<lparr>errorKey = key k, error = asError e\<rparr>]\<rparr>),
                     t' @ [TrackProgress ''error processing document''])
                | (Inr r', t') \<Rightarrow> (Inr r', t'))))"
  by (simp add: processKey_def andThen_def lift_def getObject_def tryCatch_def
      recordProcessingError_def trackProgress_def result_def
      split: prod.splits sum.splits)

lemma processKey_outcome:
  assumes "processKey env url k results t = (Inr r', t')"
  shows "(\<exists>e. r' = results\<lparr>processingErrors := processingErrors results @
                       [\<lparr>errorKey = key k, error = e\<rparr>]\<rparr>)
       \<or> r' = results\<lparr>processedKeys := processedKeys results @ [key k]\<rparr>"
  using assms unfolding processKey_cases
  by (auto split: prod.splits sum.splits dest: processContents_outcome)

text \<open>
  A round of the loop raises exactly when the sender identifier cannot be extracted or the
  object cannot be fetched; the loop then stops, with the keys behind it untouched.
\<close>

lemma processKey_raises:
  "processKey env url k results t = (Inl e, t') \<longleftrightarrow>
     extractShopIdFromKey (key k) = Inl e \<and> t' = t
   \<or> (\<exists>senderId. extractShopIdFromKey (key k) = Inr senderId)
       \<and> getObject_reply env t k = Inl e \<and> t' = t @ [GetObject k]"
  unfolding processKey_cases
  by (auto split: prod.splits sum.splits)

lemma processKeys_stops:
  "processKey env url k results t = (Inl e, t') \<Longrightarrow>
   processKeys env url (k # ks) results t = (Inl e, t')"
  by (simp add: andThen_def)

lemma processKeys_outcome:
  assumes "processKeys env url ks results t = (Inr r', t')"
  shows "filteredKeys r' = filteredKeys results
       \<and> (\<exists>es ps. processingErrors r' = processingErrors results @ es
                \<and> processedKeys r' = processedKeys results @ ps
                \<and> mset (map errorKey es) + mset ps = mset (map key ks)
                \<and> (es = [] \<longrightarrow> ps = map key ks))"
  using assms
proof (induction ks arbitrary: results t)
  case Nil
  then show ?case by (simp add: result_def)
next
  case (Cons k ks)
  from Cons.prems obtain r1 t1 where
    first: "processKey env url k results t = (Inr r1, t1)" and
    rest: "processKeys env url ks r1 t1 = (Inr r', t')"
    by (auto simp: andThen_def split: prod.splits sum.splits)
  from Cons.IH [OF rest] obtain es ps where
    ih: "filteredKeys r' = filteredKeys r1"
      "processingErrors r' = processingErrors r1 @ es"
      "processedKeys r' = processedKeys r1 @ ps"
      "mset (map errorKey es) + mset ps = mset (map key ks)"
      "es = [] \<longrightarrow> ps = map key ks"
    by blast
  from processKey_outcome [OF first] show ?case
  proof
    assume "\<exists>e. r1 = results\<lparr>processingErrors := processingErrors results @
                       [\<lparr>errorKey = key k, error = e\<rparr>]\<rparr>"
    then obtain e where r1: "r1 = results\<lparr>processingErrors := processingErrors results @
                       [\<lparr>errorKey = key k, error = e\<rparr>]\<rparr>" ..
    show ?thesis
      using ih unfolding r1
      by (intro conjI exI [of _ "\<lparr>errorKey = key k, error = e\<rparr> # es"] exI [of _ ps]) simp_all
  next
    assume r1: "r1 = results\<lparr>processedKeys := processedKeys results @ [key k]\<rparr>"
    show ?thesis
      using ih unfolding r1
      by (intro conjI exI [of _ es] exI [of _ "key k # ps"]) simp_all
  qed
qed

lemma prepare_returns:
  assumes "prepare env executionId event t = (Inr (url, g), t1)"
  shows "\<exists>records. toBucketNotificationEvent env event = Inr records
                  \<and> groupEventKeys records = Inr g"
  using assms
  by (auto simp: prepare_def andThen_def lift_def recordNewExecution_def
      trackProgress_def result_def split: prod.splits sum.splits)

lemma handler_returns_Results:
  assumes "handler env event t = (Inr (Results r), t')"
  shows "\<exists>url g t1 t2.
           prepare env (generateExecutionId env event) event
             (t @ [TrackProgress (''starting '' @ functionName env)]) = (Inr (url, g), t1)
         \<and> processKeys env url (keysToProcess g) (emptyResults g) t1 = (Inr r, t2)
         \<and> processingErrors r = []"
proof -
  let ?id = "generateExecutionId env event"
  let ?t0 = "t @ [TrackProgress (''starting '' @ functionName env)]"
  from assms have body: "handlerBody env ?id event ?t0 = (Inr (Results r), t')"
    by (auto simp: handler_def Let_def andThen_trackProgress tryCatch_def
        failedExecution_def andThen_def trackProgress_def
        split: prod.splits sum.splits)
  then obtain url g t1 where prep: "prepare env ?id event ?t0 = (Inr (url, g), t1)"
    by (auto simp: handlerBody_def andThen_def split: prod.splits sum.splits)
  with body obtain r2 t2 where
    loop: "processKeys env url (keysToProcess g) (emptyResults g) t1 = (Inr r2, t2)" and
    fin: "finish ?id g r2 t2 = (Inr (Results r), t')"
    by (auto simp: handlerBody_def andThen_def split: prod.splits sum.splits)
  from fin have "r2 = r" "processingErrors r = []"
    by (auto simp: finish_result split: if_splits)
  with prep loop show ?thesis by blast
qed

section \<open>The commands of one key\<close>

lemma write_of_complete_item_only:
  assumes "stashCommand senderId items c" and "missingRequiredAttribute record"
  shows "\<not> isWriteOf senderId record c"
proof
  assume w: "isWriteOf senderId record c"
  then obtain k v keyspace where c: "c = SetValue k v keyspace"
    by (cases c) (auto simp: isWriteOf_def)
  with assms(1) obtain item where item: "\<not> missingRequiredAttribute item"
    "isWriteOf senderId item c"
    by (auto simp: stashCommand_def list_ex_iff)
  from w item(2) c have "getProp record ''sku'' = getProp item ''sku''"
    "getProp record ''price'' = getProp item ''price''"
    "getProp record ''quantity'' = getProp item ''quantity''"
    by (auto simp: isWriteOf_def)
  with item(1) assms(2) show False
    by (auto simp: missingRequiredAttribute_def requiredInventoryItemAttributes_def
        hasOwnProperty_def getProp_def)
qed

lemma stashCommand_kinds:
  "stashCommand senderId items c \<Longrightarrow> \<not> isFetch c \<and> \<not> isDeleteObject c"
  by (cases c) (auto simp: stashCommand_def isFetch_def isDeleteObject_def)

lemma processContents_commands:
  assumes "convertCsvToJson env fileContents transformHeader = Inr inventoryJson"
  shows "\<exists>stashed rest.
           snd (processContents env url k senderId fileContents results t) =
             t @ [TrackProgress ''converted inventory JSON'', Fetch url senderId inventoryJson]
               @ stashed @ rest
         \<and> list_all (stashCommand senderId inventoryJson) stashed
         \<and> (rest = [] \<or> rest = [TrackProgress skipMessage] \<or> rest = [DeleteObject k])"
proof (cases "fetch_reply env (t @ [TrackProgress ''converted inventory JSON'']) url senderId
                inventoryJson")
  case (Some e)
  then show ?thesis
    unfolding processContents_unfold [OF assms] by simp
next
  case None
  let ?t2 = "t @ [TrackProgress ''converted inventory JSON'', Fetch url senderId inventoryJson]"
  obtain stashed where st: "snd (stashItems env senderId inventoryJson [] ?t2) = ?t2 @ stashed"
    "list_all (stashCommand senderId inventoryJson) stashed"
    using stashItems_commands by blast
  show ?thesis
  proof (cases "stashItems env senderId inventoryJson [] ?t2")
    case (Pair outcome t3)
    with st have t3: "t3 = ?t2 @ stashed" by simp
    show ?thesis
      unfolding processContents_unfold [OF assms]
      using None Pair t3 st(2)
      by (cases outcome) (auto split: option.splits)
  qed
qed

lemma processContents_webhookOnly_commands:
  assumes "convertCsvToJson env fileContents transformHeader_webhookOnly = Inr inventoryJson"
  shows "\<exists>rest.
           snd (processContents_webhookOnly env url k senderId fileContents results t) =
             t @ [TrackProgress ''converted inventory JSON'', Fetch url senderId inventoryJson]
               @ rest
         \<and> (rest = [] \<or> rest = [DeleteObject k])"
  using assms
  by (simp add: processContents_webhookOnly_def andThen_def lift_def trackProgress_def
      fetch_def replied_def deleteObject_def result_def split: option.splits)

section \<open>The claims\<close>

subsection \<open>C1: a failure outside the inner \<open>try\<close> ends the whole batch\<close>

text \<open>
  C1 asks that a failure of sender-identifier extraction, or of fetching the object, be
  recorded in \<open>processingErrors\<close> for that key only, with the remaining keys still
  processed. Both steps stand before the \<open>try\<close> of the loop body. In a batch of two
  eligible keys whose first key has five segments, the exception leaves the loop:
  the handler returns the tracker's failure object for the extraction error, no entry of
  \<open>processingErrors\<close> is returned, and the second key's object is never fetched. The
  same happens when the first key's object cannot be fetched.
\<close>

theorem failure_before_inner_try_aborts_batch:
  "handler exampleEnv
     ''trading_partners/shop_1/archive/inventory/f.csv;trading_partners/shop_1/inventory/feed.csv'' []
   = (Inr (Failed ''execution-1'' (Error ''unable to extract sender ID from object key'')),
      [TrackProgress ''starting inventory-feed-processor'',
       RecordNewExecution ''execution-1''
         ''trading_partners/shop_1/archive/inventory/f.csv;trading_partners/shop_1/inventory/feed.csv'',
       TrackProgress ''grouped event keys'',
       TrackProgress ''handler error'',
       FailedExecution ''execution-1'' (Error ''unable to extract sender ID from object key'')])
   \<and> handler exampleEnv
     ''trading_partners/shop_1/inventory/missing.csv;trading_partners/shop_1/inventory/feed.csv'' []
   = (Inr (Failed ''execution-1'' (Error ''NoSuchKey'')),
      [TrackProgress ''starting inventory-feed-processor'',
       RecordNewExecution ''execution-1''
         ''trading_partners/shop_1/inventory/missing.csv;trading_partners/shop_1/inventory/feed.csv'',
       TrackProgress ''grouped event keys'',
       GetObject \<lparr>bucketName = ''sftp'', key = ''trading_partners/shop_1/inventory/missing.csv''\<rparr>,
       TrackProgress ''handler error'',
       FailedExecution ''execution-1'' (Error ''NoSuchKey'')])"
  by code_simp

subsection \<open>C2: records that miss a required attribute\<close>

text \<open>
  C2 (as amended). A converted record that misses \<open>sku\<close>, \<open>quantity\<close> or \<open>price\<close> is
  never written to the keyed store (every value set is the write of a record that has all
  three), but it is forwarded: the one webhook post of its key carries every converted
  record. In the handler that only posts to the webhook nothing is written to a keyed store
  at all.
\<close>

theorem incomplete_record_is_posted_and_never_stored:
  assumes "record \<in> set inventoryJson" and "missingRequiredAttribute record"
  shows "(convertCsvToJson env fileContents transformHeader = Inr inventoryJson \<longrightarrow>
           (\<exists>new. snd (processContents env url k senderId fileContents results t) = t @ new
                 \<and> filter isFetch new = [Fetch url senderId inventoryJson]
                 \<and> \<not> list_ex (isWriteOf senderId record) new
                 \<and> list_all (\<lambda>c. isSetValue c \<longrightarrow>
                       list_ex (\<lambda>item. \<not> missingRequiredAttribute item
                                  \<and> isWriteOf senderId item c) inventoryJson) new))
       \<and> (convertCsvToJson env fileContents transformHeader_webhookOnly = Inr inventoryJson \<longrightarrow>
           (\<exists>new. snd (processContents_webhookOnly env url k senderId fileContents results t)
                     = t @ new
                 \<and> filter isFetch new = [Fetch url senderId inventoryJson]
                 \<and> \<not> list_ex isSetValue new))"
proof (intro conjI impI)
  assume conv: "convertCsvToJson env fileContents transformHeader = Inr inventoryJson"
  from processContents_commands [OF conv] obtain stashed rest where
    new: "snd (processContents env url k senderId fileContents results t) =
            t @ [TrackProgress ''converted inventory JSON'', Fetch url senderId inventoryJson]
              @ stashed @ rest"
    and stashed: "list_all (stashCommand senderId inventoryJson) stashed"
    and rest: "rest = [] \<or> rest = [TrackProgress skipMessage] \<or> rest = [DeleteObject k]"
    by blast
  have 1: "filter isFetch stashed = []"
    using stashed by (auto simp: list_all_iff filter_empty_conv dest: stashCommand_kinds)
  have 2: "\<not> list_ex (isWriteOf senderId record) stashed"
    using stashed assms(2)
    by (auto simp: list_all_iff list_ex_iff dest: write_of_complete_item_only)
  have 3: "filter isFetch rest = []" "\<not> list_ex (isWriteOf senderId record) rest"
    "\<not> list_ex isSetValue rest"
    using rest by (auto simp: isFetch_def isWriteOf_def isSetValue_def)
  have 4: "list_all (\<lambda>c. isSetValue c \<longrightarrow>
             list_ex (\<lambda>item. \<not> missingRequiredAttribute item \<and> isWriteOf senderId item c)
               inventoryJson) stashed"
    using stashed
    by (auto simp: list_all_iff stashCommand_def isSetValue_def split: command.splits)
  have 5: "list_all (\<lambda>c. isSetValue c \<longrightarrow>
             list_ex (\<lambda>item. \<not> missingRequiredAttribute item \<and> isWriteOf senderId item c)
               inventoryJson) rest"
    using 3(3) by (auto simp: list_all_iff list_ex_iff)
  show "\<exists>new. snd (processContents env url k senderId fileContents results t) = t @ new
             \<and> filter isFetch new = [Fetch url senderId inventoryJson]
             \<and> \<not> list_ex (isWriteOf senderId record) new
             \<and> list_all (\<lambda>c. isSetValue c \<longrightarrow>
                   list_ex (\<lambda>item. \<not> missingRequiredAttribute item
                              \<and> isWriteOf senderId item c) inventoryJson) new"
    using new 1 2 3 4 5
    by (intro exI [of _ "[TrackProgress ''converted inventory JSON'',
                         Fetch url senderId inventoryJson] @ stashed @ rest"])
       (simp add: isFetch_def isWriteOf_def isSetValue_def)
next
  assume conv: "convertCsvToJson env fileContents transformHeader_webhookOnly = Inr inventoryJson"
  from processContents_webhookOnly_commands [OF conv] obtain rest where
    new: "snd (processContents_webhookOnly env url k senderId fileContents results t) =
            t @ [TrackProgress ''converted inventory JSON'', Fetch url senderId inventoryJson]
              @ rest"
    and rest: "rest = [] \<or> rest = [DeleteObject k]"
    by blast
  show "\<exists>new. snd (processContents_webhookOnly env url k senderId fileContents results t)
                 = t @ new
             \<and> filter isFetch new = [Fetch url senderId inventoryJson]
             \<and> \<not> list_ex isSetValue new"
    using new rest
    by (intro exI [of _ "[TrackProgress ''converted inventory JSON'',
                         Fetch url senderId inventoryJson] @ rest"])
       (auto simp: isFetch_def isSetValue_def)
qed

text \<open>
  The theorem at the file \<open>noprice.csv\<close> of the example, which has no price column: both
  of its records are posted and neither is written.
\<close>

theorem incomplete_record_is_posted_and_never_stored_witness:
  "incompleteRow \<in> set [incompleteRowX, incompleteRow]
   \<and> missingRequiredAttribute incompleteRow
   \<and> convertCsvToJson exampleEnv ''noprice'' transformHeader = Inr [incompleteRowX, incompleteRow]
   \<and> (\<exists>new. snd (processContents exampleEnv ''https://webhook.example'' nopriceKey ''shop_1''
                    ''noprice'' noResults []) = new
          \<and> filter isFetch new
              = [Fetch ''https://webhook.example'' ''shop_1'' [incompleteRowX, incompleteRow]]
          \<and> \<not> list_ex (isWriteOf ''shop_1'' incompleteRow) new)"
proof -
  have h1: "incompleteRow \<in> set [incompleteRowX, incompleteRow]"
    by simp
  have h2: "missingRequiredAttribute incompleteRow"
    by code_simp
  have h3: "convertCsvToJson exampleEnv ''noprice'' transformHeader
              = Inr [incompleteRowX, incompleteRow]"
    by code_simp
  from incomplete_record_is_posted_and_never_stored [OF h1 h2,
      of exampleEnv "''noprice''" "''https://webhook.example''" nopriceKey "''shop_1''"
         noResults "[]"] h3
  have "\<exists>new. snd (processContents exampleEnv ''https://webhook.example'' nopriceKey ''shop_1''
                    ''noprice'' noResults []) = [] @ new
          \<and> filter isFetch new
              = [Fetch ''https://webhook.example'' ''shop_1'' [incompleteRowX, incompleteRow]]
          \<and> \<not> list_ex (isWriteOf ''shop_1'' incompleteRow) new"
    by auto
  with h1 h2 h3 show ?thesis
    by simp
qed

text \<open>
  C2 as stated fails: the records of \<open>noprice.csv\<close> have no price, and the post to the
  webhook for that key carries them.
\<close>

theorem incomplete_record_is_forwarded:
  "missingRequiredAttribute incompleteRow
   \<and> Fetch ''https://webhook.example'' ''shop_1'' [incompleteRowX, incompleteRow]
       \<in> set (snd (handler exampleEnv ''trading_partners/shop_1/inventory/noprice.csv'' []))"
  by code_simp

subsection \<open>C3: the handler always returns\<close>



subsection \<open>C4: where the records of a batch end\<close>

text \<open>
  C4 (as amended). When the handler returns processing results, \<open>processingErrors\<close> is
  empty and every record of the batch has exactly one entry in exactly one of the two other
  lists: a filtered record its raw key in \<open>filteredKeys\<close>, an eligible record its decoded
  key in \<open>processedKeys\<close>, in the order of the batch.
\<close>

theorem every_record_is_reported_once:
  assumes "handler env event t = (Inr (Results results), t')"
    and "toBucketNotificationEvent env event = Inr records"
  shows "processingErrors results = []
       \<and> filteredKeys results = concat (map filteredEntries records)
       \<and> processedKeys results = map key (concat (map eligibleEntries records))
       \<and> (\<forall>record \<in> set records.
             length (filteredEntries record) + length (eligibleEntries record) = 1)"
proof -
  from handler_returns_Results [OF assms(1)] obtain url g t1 t2 where
    prep: "prepare env (generateExecutionId env event) event
             (t @ [TrackProgress (''starting '' @ functionName env)]) = (Inr (url, g), t1)" and
    loop: "processKeys env url (keysToProcess g) (emptyResults g) t1 = (Inr results, t2)" and
    noerr: "processingErrors results = []"
    by blast
  from prepare_returns [OF prep] assms(2) have g: "groupEventKeys records = Inr g"
    by auto
  then have dec: "\<not> list_ex undecodable records"
    and g': "g = \<lparr>groupFilteredKeys = concat (map filteredEntries records),
                  keysToProcess = concat (map eligibleEntries records)\<rparr>"
    by (auto simp: groupEventKeys_classify split: if_splits)
  from processKeys_outcome [OF loop] noerr
  have "filteredKeys results = groupFilteredKeys g"
    "processedKeys results = map key (keysToProcess g)"
    by (auto simp: emptyResults_def)
  with noerr dec g' show ?thesis
    by (auto simp: list_ex_iff one_entry_per_record)
qed

text \<open>The theorem at a batch of a folder and a feed file.\<close>

theorem every_record_is_reported_once_witness:
  "fst (handler exampleEnv
          ''trading_partners/shop_1/inventory/;trading_partners/shop_1/inventory/feed.csv'' [])
     = Inr (Results
         \<lparr>filteredKeys = [\<lparr>filteredKey = ''trading_partners/shop_1/inventory/'',
                            reason = ''key represents a folder''\<rparr>],
          processingErrors = [],
          processedKeys = [''trading_partners/shop_1/inventory/feed.csv'']\<rparr>)
   \<and> concat (map filteredEntries
        [\<lparr>s3_bucket_name = ''sftp'', s3_object_key = ''trading_partners/shop_1/inventory/''\<rparr>,
         \<lparr>s3_bucket_name = ''sftp'',
           s3_object_key = ''trading_partners/shop_1/inventory/feed.csv''\<rparr>])
     = [\<lparr>filteredKey = ''trading_partners/shop_1/inventory/'',
         reason = ''key represents a folder''\<rparr>]
   \<and> map key (concat (map eligibleEntries
        [\<lparr>s3_bucket_name = ''sftp'', s3_object_key = ''trading_partners/shop_1/inventory/''\<rparr>,
         \<lparr>s3_bucket_name = ''sftp'',
           s3_object_key = ''trading_partners/shop_1/inventory/feed.csv''\<rparr>]))
     = [''trading_partners/shop_1/inventory/feed.csv'']"
proof -
  let ?event =
    "''trading_partners/shop_1/inventory/;trading_partners/shop_1/inventory/feed.csv''"
  let ?results =
    "\<lparr>filteredKeys = [\<lparr>filteredKey = ''trading_partners/shop_1/inventory/'',
                        reason = ''key represents a folder''\<rparr>],
      processingErrors = [],
      processedKeys = [''trading_partners/shop_1/inventory/feed.csv'']\<rparr>"
  let ?records =
    "[\<lparr>s3_bucket_name = ''sftp'', s3_object_key = ''trading_partners/shop_1/inventory/''\<rparr>,
      \<lparr>s3_bucket_name = ''sftp'',
        s3_object_key = ''trading_partners/shop_1/inventory/feed.csv''\<rparr>]"
  have h0: "fst (handler exampleEnv ?event []) = Inr (Results ?results)"
    by code_simp
  then have h1: "handler exampleEnv ?event []
                   = (Inr (Results ?results), snd (handler exampleEnv ?event []))"
    by (simp add: prod_eq_iff)
  have h2: "toBucketNotificationEvent exampleEnv ?event = Inr ?records"
    by code_simp
  from every_record_is_reported_once [OF h1 h2] h0 show ?thesis
    by simp
qed

text \<open>
  C4 as stated fails. The raw key \<open>tp/inventory/x/y.csv\<close> is filtered (its second-to-last
  segment is \<open>x\<close>); the raw key \<open>tp/inventory/x%2Fy.csv\<close> is eligible and decodes to the
  same text. The returned results hold that key in \<open>filteredKeys\<close> and in
  \<open>processedKeys\<close>.
\<close>

theorem one_key_in_two_result_lists:
  "fst (handler exampleEnv ''tp/inventory/x/y.csv;tp/inventory/x%2Fy.csv'' [])
     = Inr (Results
         \<lparr>filteredKeys =
            [\<lparr>filteredKey = ''tp/inventory/x/y.csv'',
              reason = ''key does not match an item in an `inventory` directory''\<rparr>],
          processingErrors = [],
          processedKeys = [''tp/inventory/x/y.csv'']\<rparr>)"
  by code_simp

subsection \<open>C5: a key with a skipped record\<close>

text \<open>
  C5. For every eligible key of which a converted record was skipped for missing a required
  attribute (the object was fetched and converted, the post to the webhook went through, and
  a record misses \<open>sku\<close>, \<open>quantity\<close> or \<open>price\<close>), the key is not added to
  \<open>processedKeys\<close>, its object is not deleted, and the key is recorded in
  \<open>processingErrors\<close> with the skip message. The records of one file share their columns,
  so every record of the file is skipped then and no call is made on the keyed store: the
  round fetches the object, posts the records and reports its progress, nothing else.
\<close>

theorem key_with_skipped_record_is_an_error:
  assumes "extractShopIdFromKey (key k) = Inr senderId"
    and "getObject_reply env t k = Inr fileContents"
    and "convertCsvToJson env fileContents transformHeader = Inr inventoryJson"
    and "fetch_reply env (t @ [GetObject k, TrackProgress ''converted inventory JSON''])
           url senderId inventoryJson = None"
    and "list_ex missingRequiredAttribute inventoryJson"
  shows "stashItems env senderId inventoryJson []
           (t @ [GetObject k, TrackProgress ''converted inventory JSON'',
                 Fetch url senderId inventoryJson])
         = (Inr inventoryJson,
            t @ [GetObject k, TrackProgress ''converted inventory JSON'',
                 Fetch url senderId inventoryJson])
       \<and> processKey env url k results t
         = (Inr \<lparr>filteredKeys = filteredKeys results,
                 processingErrors = processingErrors results @
                   [\<lparr>errorKey = key k, error = Error skipMessage\<rparr>],
                 processedKeys = processedKeys results\<rparr>,
            t @ [GetObject k, TrackProgress ''converted inventory JSON'',
                 Fetch url senderId inventoryJson, TrackProgress skipMessage])"
proof -
  let ?t2 = "t @ [GetObject k, TrackProgress ''converted inventory JSON'',
                  Fetch url senderId inventoryJson]"
  from one_skipped_all_skipped [OF assms(3) assms(5)]
  have "list_all missingRequiredAttribute inventoryJson" .
  then have skipped: "stashItems env senderId inventoryJson [] ?t2 = (Inr inventoryJson, ?t2)"
    by (simp add: stashItems_all_skipped)
  from assms(5) have some: "inventoryJson \<noteq> []"
    by auto
  have "processKey env url k results t
         = (Inr \<lparr>filteredKeys = filteredKeys results,
                 processingErrors = processingErrors results @
                   [\<lparr>errorKey = key k, error = Error skipMessage\<rparr>],
                 processedKeys = processedKeys results\<rparr>,
            ?t2 @ [TrackProgress skipMessage])"
    using skipped some assms(4)
    by (simp add: processKey_cases assms(1,2) processContents_unfold [OF assms(3)])
  with skipped show ?thesis
    by simp
qed

text \<open>The theorem at \<open>noprice.csv\<close>, whose two records have no price.\<close>

theorem key_with_skipped_record_is_an_error_witness:
  "extractShopIdFromKey (key nopriceKey) = Inr ''shop_1''
   \<and> getObject_reply exampleEnv [] nopriceKey = Inr ''noprice''
   \<and> convertCsvToJson exampleEnv ''noprice'' transformHeader = Inr [incompleteRowX, incompleteRow]
   \<and> fetch_reply exampleEnv [GetObject nopriceKey, TrackProgress ''converted inventory JSON'']
       ''https://webhook.example'' ''shop_1'' [incompleteRowX, incompleteRow] = None
   \<and> list_ex missingRequiredAttribute [incompleteRowX, incompleteRow]
   \<and> processKey exampleEnv ''https://webhook.example'' nopriceKey noResults []
       = (Inr \<lparr>filteredKeys = [],
               processingErrors = [\<lparr>errorKey = key nopriceKey, error = Error skipMessage\<rparr>],
               processedKeys = []\<rparr>,
          [GetObject nopriceKey, TrackProgress ''converted inventory JSON'',
           Fetch ''https://webhook.example'' ''shop_1'' [incompleteRowX, incompleteRow],
           TrackProgress skipMessage])"
proof -
  let ?url = "''https://webhook.example''"
  have h1: "extractShopIdFromKey (key nopriceKey) = Inr ''shop_1''"
    by code_simp
  have h2: "getObject_reply exampleEnv [] nopriceKey = Inr ''noprice''"
    by code_simp
  have h3: "convertCsvToJson exampleEnv ''noprice'' transformHeader
              = Inr [incompleteRowX, incompleteRow]"
    by code_simp
  have h4: "fetch_reply exampleEnv
              ([] @ [GetObject nopriceKey, TrackProgress ''converted inventory JSON''])
              ?url ''shop_1'' [incompleteRowX, incompleteRow] = None"
    by (simp add: exampleEnv_def)
  have h5: "list_ex missingRequiredAttribute [incompleteRowX, incompleteRow]"
    by code_simp
  from key_with_skipped_record_is_an_error [OF h1 h2 h3 h4 h5, of noResults]
  have "processKey exampleEnv ?url nopriceKey noResults []
       = (Inr \<lparr>filteredKeys = [],
               processingErrors = [\<lparr>errorKey = key nopriceKey, error = Error skipMessage\<rparr>],
               processedKeys = []\<rparr>,
          [GetObject nopriceKey, TrackProgress ''converted inventory JSON'',
           Fetch ?url ''shop_1'' [incompleteRowX, incompleteRow],
           TrackProgress skipMessage])"
    by (simp add: noResults_def)
  with h1 h2 h3 h4 h5 show ?thesis
    by simp
qed

subsection \<open>C6: how the execution is finalised\<close>

text \<open>
  C6 asks that, for every batch, the execution be finalised as a success if and only if
  \<open>processingErrors\<close> is empty after all keys are processed, and that otherwise one
  summary error, which counts the keys attempted and the errors, go to the tracker's
  \<open>failedExecution\<close>. A batch of a good file followed by a key of five segments ends
  otherwise. The first key is processed and its object deleted, with no processing error.
  The extraction of the sender identifier of the second key raises before the \<open>try\<close>
  of the loop body and leaves the loop: \<open>markExecutionAsSuccessful\<close> is not called
  although \<open>processingErrors\<close> is empty, and \<open>failedExecution\<close> gets the extraction
  error, not a summary of counts.
\<close>

theorem abort_is_finalised_without_summary:
  "processKeys exampleEnv ''https://webhook.example'' [feedKey] noResults
     [TrackProgress ''starting inventory-feed-processor'',
      RecordNewExecution ''execution-1''
        ''trading_partners/shop_1/inventory/feed.csv;trading_partners/shop_1/archive/inventory/f.csv'',
      TrackProgress ''grouped event keys'']
   = (Inr \<lparr>filteredKeys = [], processingErrors = [],
            processedKeys = [''trading_partners/shop_1/inventory/feed.csv'']\<rparr>,
      [TrackProgress ''starting inventory-feed-processor'',
       RecordNewExecution ''execution-1''
         ''trading_partners/shop_1/inventory/feed.csv;trading_partners/shop_1/archive/inventory/f.csv'',
       TrackProgress ''grouped event keys'',
       GetObject feedKey,
       TrackProgress ''converted inventory JSON'',
       Fetch ''https://webhook.example'' ''shop_1'' [completeRow, [(''sku'', ''Y''), (''quantity'', ''3''), (''price'', ''4'')]],
       GetValue (Some ''X'') ''inventory-data'',
       SetValue (Some ''X'')
         [(''shop_0'', \<lparr>price = Some ''9'', quantity = Some ''7''\<rparr>),
          (''shop_1'', \<lparr>price = Some ''2'', quantity = Some ''1''\<rparr>)]
         ''inventory-data'',
       GetValue (Some ''Y'') ''inventory-data'',
       SetValue (Some ''Y'')
         [(''shop_1'', \<lparr>price = Some ''4'', quantity = Some ''3''\<rparr>)]
         ''inventory-data'',
       DeleteObject feedKey])
   \<and> handler exampleEnv
       ''trading_partners/shop_1/inventory/feed.csv;trading_partners/shop_1/archive/inventory/f.csv''
       []
   = (Inr (Failed ''execution-1'' (Error ''unable to extract sender ID from object key'')),
      [TrackProgress ''starting inventory-feed-processor'',
       RecordNewExecution ''execution-1''
         ''trading_partners/shop_1/inventory/feed.csv;trading_partners/shop_1/archive/inventory/f.csv'',
       TrackProgress ''grouped event keys'',
       GetObject feedKey,
       TrackProgress ''converted inventory JSON'',
       Fetch ''https://webhook.example'' ''shop_1'' [completeRow, [(''sku'', ''Y''), (''quantity'', ''3''), (''price'', ''4'')]],
       GetValue (Some ''X'') ''inventory-data'',
       SetValue (Some ''X'')
         [(''shop_0'', \<lparr>price = Some ''9'', quantity = Some ''7''\<rparr>),
          (''shop_1'', \<lparr>price = Some ''2'', quantity = Some ''1''\<rparr>)]
         ''inventory-data'',
       GetValue (Some ''Y'') ''inventory-data'',
       SetValue (Some ''Y'')
         [(''shop_1'', \<lparr>price = Some ''4'', quantity = Some ''3''\<rparr>)]
         ''inventory-data'',
       DeleteObject feedKey,
       TrackProgress ''handler error'',
       FailedExecution ''execution-1'' (Error ''unable to extract sender ID from object key'')])"
  by code_simp

subsection \<open>C7: the header transformation\<close>

text \<open>
  C7 (as amended). In the handler that only posts to the webhook, the transformation of a
  column header equals lower-casing it and then replacing every maximal run of spaces and
  slashes by one underscore. In the handler that also writes to the keyed store it equals
  lower-casing the header and then replacing every maximal run of spaces by one underscore;
  slashes stay.
\<close>

theorem header_transformation_collapses_runs:
  "transformHeader_webhookOnly header = collapseRuns spaceOrSlash (toLowerCase header)
   \<and> transformHeader header = collapseRuns (\<lambda>c. c = CHR '' '') (toLowerCase header)"
proof -
  have "spaceOrSlash = (\<lambda>c. c = CHR '' '' \<or> c = CHR ''/'')"
    by (simp add: fun_eq_iff spaceOrSlash_def)
  then show ?thesis
    by (simp add: transformHeader_def transformHeader_webhookOnly_def replaceRuns_collapse)
qed

text \<open>
  C7 as stated fails for the handler that writes to the keyed store: its pattern is
  \<open>/ +/g\<close>, and a slash in a header is kept.
\<close>

theorem header_slash_is_kept:
  "transformHeader ''Unit/Price'' = ''unit/price''
   \<and> collapseRuns spaceOrSlash (toLowerCase ''Unit/Price'') = ''unit_price''"
  by code_simp

subsection \<open>C8: the classifier\<close>

text \<open>
  C8 (as amended). The classifier applies its rules to every record in order: a raw key
  that ends with the path separator is filtered as a folder; otherwise a key with fewer than
  two segments, or whose second-to-last segment is not \<open>inventory\<close>, is filtered as not
  matching; otherwise the key is decoded (\<open>+\<close> read as a space, then percent-decoding) and,
  when its escapes are well formed, emitted as eligible with the record's bucket name. When
  the escapes of such a key are malformed, decoding raises \<open>URIError\<close> and the classifier
  returns nothing for the batch. The classifier takes the records and nothing else, and
  issues no command.
\<close>

theorem classifier_follows_the_rules:
  "groupEventKeys records =
     (if list_ex undecodable records then Inl URIError
      else Inr \<lparr>groupFilteredKeys = concat (map filteredEntries records),
                keysToProcess = concat (map eligibleEntries records)\<rparr>)"
proof (cases "list_ex undecodable records")
  case True
  then have "reduceEventKeys records ([], []) = Inl URIError"
    by (simp add: reduceEventKeys_classify)
  with True show ?thesis
    by (simp add: groupEventKeys_def)
next
  case False
  then have "reduceEventKeys records ([], []) =
               Inr (concat (map filteredEntries records), concat (map eligibleEntries records))"
    by (simp add: reduceEventKeys_classify)
  with False show ?thesis
    by (simp add: groupEventKeys_def)
qed

text \<open>The theorem at a folder, a key outside an inventory directory, and an encoded key.\<close>

theorem classifier_follows_the_rules_witness:
  "groupEventKeys
     [\<lparr>s3_bucket_name = ''sftp'', s3_object_key = ''trading_partners/shop_1/inventory/''\<rparr>,
      \<lparr>s3_bucket_name = ''sftp'', s3_object_key = ''other/shop_1/x.csv''\<rparr>,
      \<lparr>s3_bucket_name = ''sftp'',
        s3_object_key = ''trading_partners/shop+1/inventory/feed%20a.csv''\<rparr>]
   = Inr \<lparr>groupFilteredKeys =
            [\<lparr>filteredKey = ''trading_partners/shop_1/inventory/'',
              reason = ''key represents a folder''\<rparr>,
             \<lparr>filteredKey = ''other/shop_1/x.csv'',
              reason = ''key does not match an item in an `inventory` directory''\<rparr>],
          keysToProcess =
            [\<lparr>bucketName = ''sftp'', key = ''trading_partners/shop 1/inventory/feed a.csv''\<rparr>]\<rparr>"
proof -
  let ?records =
    "[\<lparr>s3_bucket_name = ''sftp'', s3_object_key = ''trading_partners/shop_1/inventory/''\<rparr>,
      \<lparr>s3_bucket_name = ''sftp'', s3_object_key = ''other/shop_1/x.csv''\<rparr>,
      \<lparr>s3_bucket_name = ''sftp'',
        s3_object_key = ''trading_partners/shop+1/inventory/feed%20a.csv''\<rparr>]"
  have 1: "\<not> list_ex undecodable ?records"
    by code_simp
  have 2: "concat (map filteredEntries ?records) =
             [\<lparr>filteredKey = ''trading_partners/shop_1/inventory/'',
               reason = ''key represents a folder''\<rparr>,
              \<lparr>filteredKey = ''other/shop_1/x.csv'',
               reason = ''key does not match an item in an `inventory` directory''\<rparr>]"
    by code_simp
  have 3: "concat (map eligibleEntries ?records) =
             [\<lparr>bucketName = ''sftp'', key = ''trading_partners/shop 1/inventory/feed a.csv''\<rparr>]"
    by code_simp
  from classifier_follows_the_rules [of ?records] 1 show ?thesis
    unfolding 2 3 by simp
qed

text \<open>
  C8 as stated fails. The raw key \<open>x/inventory/%\<close> does not end with the separator and
  its second-to-last segment is \<open>inventory\<close>, yet the classifier emits no eligible key:
  it raises.
\<close>

theorem undecodable_key_is_not_emitted:
  "classify ''x/inventory/%'' = Eligible
   \<and> groupEventKeys [\<lparr>s3_bucket_name = ''sftp'', s3_object_key = ''x/inventory/%''\<rparr>]
       = Inl (Error ''URI malformed'')"
  by code_simp

subsection \<open>C9: a write to the keyed store is a merge\<close>

text \<open>
  C9. For a record with every required attribute, the value written under the record's sku
  is the value read for that sku just before (an empty object when there is none) with the
  entry of the current sender set to the record's price and quantity; the entry of every
  other sender is the one that was read.
\<close>

theorem stashed_value_merges_sender_entry:
  assumes "\<not> missingRequiredAttribute item"
    and "getValue_reply env t (getProp item ''sku'') = Inr existing"
  shows "\<exists>written.
           snd (stashItem env senderId skipped item t) =
             t @ [GetValue (getProp item ''sku'') INVENTORY_DATA_STASH_KEYSPACE_NAME,
                  SetValue (getProp item ''sku'') written INVENTORY_DATA_STASH_KEYSPACE_NAME]
         \<and> map_of written =
             (map_of (case existing of None \<Rightarrow> [] | Some stored \<Rightarrow> stored))
               (senderId \<mapsto> \<lparr>price = getProp item ''price'', quantity = getProp item ''quantity''\<rparr>)
         \<and> (\<forall>other. other \<noteq> senderId \<longrightarrow>
               map_of written other =
               map_of (case existing of None \<Rightarrow> [] | Some stored \<Rightarrow> stored) other)"
  using assms
  by (intro exI [of _ "mergedValue existing senderId item"])
     (simp add: stashItem_writes mergedValue_def map_of_spreadWith)

text \<open>
  The theorem at the first row of the example feed: sku \<open>X\<close> holds an entry of
  \<open>shop_0\<close>, which the write of \<open>shop_1\<close> keeps.
\<close>

theorem stashed_value_merges_sender_entry_witness:
  "\<not> missingRequiredAttribute completeRow
   \<and> getValue_reply exampleEnv [] (getProp completeRow ''sku'')
       = Inr (Some [(''shop_0'', \<lparr>price = Some ''9'', quantity = Some ''7''\<rparr>)])
   \<and> (\<exists>written.
         snd (stashItem exampleEnv ''shop_1'' [] completeRow []) =
           [GetValue (Some ''X'') ''inventory-data'',
            SetValue (Some ''X'') written ''inventory-data'']
       \<and> map_of written ''shop_1'' = Some \<lparr>price = Some ''2'', quantity = Some ''1''\<rparr>
       \<and> map_of written ''shop_0'' = Some \<lparr>price = Some ''9'', quantity = Some ''7''\<rparr>)"
proof -
  have h1: "\<not> missingRequiredAttribute completeRow"
    by code_simp
  have h2: "getValue_reply exampleEnv [] (getProp completeRow ''sku'')
              = Inr (Some [(''shop_0'', \<lparr>price = Some ''9'', quantity = Some ''7''\<rparr>)])"
    by code_simp
  have props: "getProp completeRow ''sku'' = Some ''X''"
    "getProp completeRow ''price'' = Some ''2''"
    "getProp completeRow ''quantity'' = Some ''1''"
    by (simp_all add: getProp_def completeRow_def)
  from stashed_value_merges_sender_entry [OF h1 h2, of "''shop_1''" "[]"]
  obtain written where
    "snd (stashItem exampleEnv ''shop_1'' [] completeRow []) =
       [] @ [GetValue (getProp completeRow ''sku'') INVENTORY_DATA_STASH_KEYSPACE_NAME,
             SetValue (getProp completeRow ''sku'') written INVENTORY_DATA_STASH_KEYSPACE_NAME]"
    "map_of written =
       (map_of [(''shop_0'', \<lparr>price = Some ''9'', quantity = Some ''7''\<rparr>)])
         (''shop_1'' \<mapsto> \<lparr>price = getProp completeRow ''price'',
                            quantity = getProp completeRow ''quantity''\<rparr>)"
    by auto
  then have "snd (stashItem exampleEnv ''shop_1'' [] completeRow []) =
               [GetValue (Some ''X'') ''inventory-data'',
                SetValue (Some ''X'') written ''inventory-data'']
           \<and> map_of written ''shop_1'' = Some \<lparr>price = Some ''2'', quantity = Some ''1''\<rparr>
           \<and> map_of written ''shop_0'' = Some \<lparr>price = Some ''9'', quantity = Some ''7''\<rparr>"
    by (simp add: props INVENTORY_DATA_STASH_KEYSPACE_NAME_def)
  with h1 h2 show ?thesis
    by blast
qed

subsection \<open>C10: an eligible key from which no sender can be extracted\<close>

text \<open>
  C10. There is a record that the classifier marks eligible and whose decoded key does
  not split into four segments: the raw key \<open>trading_partners/a%2Fb/inventory/f.csv\<close> has
  four segments with \<open>inventory\<close> second to last; its decoded key has five, and the
  extraction of the sender identifier raises.
\<close>

theorem eligible_key_without_sender:
  "\<exists>record k.
     length (split_str CHR ''/'' (s3_object_key record)) = 4
   \<and> groupEventKeys [record] = Inr \<lparr>groupFilteredKeys = [], keysToProcess = [k]\<rparr>
   \<and> length (split_str CHR ''/'' (key k)) = 5
   \<and> extractShopIdFromKey (key k) = Inl (Error ''unable to extract sender ID from object key'')"
proof (intro exI)
  show "length (split_str CHR ''/''
          (s3_object_key \<lparr>s3_bucket_name = ''sftp'',
                          s3_object_key = ''trading_partners/a%2Fb/inventory/f.csv''\<rparr>)) = 4
   \<and> groupEventKeys [\<lparr>s3_bucket_name = ''sftp'',
                      s3_object_key = ''trading_partners/a%2Fb/inventory/f.csv''\<rparr>]
       = Inr \<lparr>groupFilteredKeys = [],
              keysToProcess =
                [\<lparr>bucketName = ''sftp'', key = ''trading_partners/a/b/inventory/f.csv''\<rparr>]\<rparr>
   \<and> length (split_str CHR ''/''
          (key \<lparr>bucketName = ''sftp'', key = ''trading_partners/a/b/inventory/f.csv''\<rparr>)) = 5
   \<and> extractShopIdFromKey
         (key \<lparr>bucketName = ''sftp'', key = ''trading_partners/a/b/inventory/f.csv''\<rparr>)
       = Inl (Error ''unable to extract sender ID from object key'')"
    by code_simp
qed

end
